theory Spec2Isabelle
  imports Main
begin

text \<open>
  A shallow embedding of the patch verification core of the repository: the context-chunk
  builder (\<^verbatim>\<open>stages/context/localization.py\<close>), the derivation of a patch from two
  file versions (\<^verbatim>\<open>export_final_patches.py\<close>) and the script runners with their output
  rendering (\<^verbatim>\<open>swe_bench/test_runner/test_execution.py\<close>). The first part gives the
  definitions, function by function; the second part proves the properties.
\<close>

section \<open>Python primitives used by the sources\<close>

text \<open>
  Python strings are modelled as \<^typ>\<open>string\<close>; a \<^typ>\<open>char\<close> stands for one
  code point below 256, and \<^const>\<open>length\<close> is Python's \<^verbatim>\<open>len\<close>. Python integers are
  \<^typ>\<open>int\<close>; \<^verbatim>\<open>//\<close> is floor division, as \<^const>\<open>divide\<close> on \<^typ>\<open>int\<close> is.
\<close>

abbreviation NL :: char where
  "NL \<equiv> CHR 0x0A"

text \<open>
  A slice bound as Python normalises it against the length \<open>n\<close>: a negative bound counts
  from the end, and the result is clamped to \<open>0..n\<close>.
\<close>

definition slice_bound :: "int \<Rightarrow> int \<Rightarrow> int" where
  "slice_bound n i = (if i < 0 then max (i + n) 0 else min i n)"

text \<open>\<^verbatim>\<open>xs[a:b]\<close>, \<^verbatim>\<open>xs[:b]\<close> and \<^verbatim>\<open>xs[a:]\<close>.\<close>

definition py_slice :: "'a list \<Rightarrow> int \<Rightarrow> int \<Rightarrow> 'a list" where
  "py_slice xs a b =
     (let n = int (length xs); lo = slice_bound n a; hi = slice_bound n b
      in take (nat (hi - lo)) (drop (nat lo) xs))"

definition py_slice_to :: "'a list \<Rightarrow> int \<Rightarrow> 'a list" where
  "py_slice_to xs b = py_slice xs 0 b"

definition py_slice_from :: "'a list \<Rightarrow> int \<Rightarrow> 'a list" where
  "py_slice_from xs a = py_slice xs a (int (length xs))"

text \<open>\<^verbatim>\<open>str(n)\<close> for an integer, as an f-string renders it.\<close>

definition digit_char :: "nat \<Rightarrow> char" where
  "digit_char d = ''0123456789'' ! d"

fun str_nat :: "nat \<Rightarrow> string" where
  "str_nat n = (if n < 10 then [digit_char n] else str_nat (n div 10) @ [digit_char (n mod 10)])"

declare str_nat.simps [simp del]

definition str_int :: "int \<Rightarrow> string" where
  "str_int i = (if i < 0 then CHR ''-'' # str_nat (nat (- i)) else str_nat (nat i))"

text \<open>The exceptions that the modelled code can raise; an \<open>Inl\<close> result is a raise.\<close>

datatype py_error =
  IndexError | ValueError | UnicodeDecodeError | OSError | UnboundLocalError | TypeError

text \<open>\<^verbatim>\<open>xs[i]\<close>: an index below \<open>-len(xs)\<close> or from \<open>len(xs)\<close> on raises.\<close>

definition py_index :: "'a list \<Rightarrow> int \<Rightarrow> py_error + 'a" where
  "py_index xs i =
     (if 0 \<le> i \<and> i < int (length xs) then Inr (xs ! nat i)
      else if i < 0 \<and> - int (length xs) \<le> i then Inr (xs ! nat (i + int (length xs)))
      else Inl IndexError)"

text \<open>
  \<^verbatim>\<open>str.isspace\<close> on one character, which is also what \<^verbatim>\<open>str.strip()\<close> removes and
  what \<^verbatim>\<open>\s\<close> matches in a \<^verbatim>\<open>re\<close> pattern over \<^verbatim>\<open>str\<close>: below 256 these are the
  code points 9 to 13, 28 to 32, 133 and 160.
\<close>

definition py_isspace :: "char \<Rightarrow> bool" where
  "py_isspace c = ((of_char c :: nat) \<in> {9, 10, 11, 12, 13, 28, 29, 30, 31, 32, 133, 160})"

definition py_strip :: "string \<Rightarrow> string" where
  "py_strip s = rev (dropWhile py_isspace (rev (dropWhile py_isspace s)))"

definition py_startswith :: "string \<Rightarrow> string \<Rightarrow> bool" where
  "py_startswith s p = (take (length p) s = p)"

definition py_endswith :: "string \<Rightarrow> string \<Rightarrow> bool" where
  "py_endswith s p = (length p \<le> length s \<and> drop (length s - length p) s = p)"

text \<open>
  \<^verbatim>\<open>s.split(sep)\<close> for a separator of one character: the result is never empty, and
  \<open>n\<close> separators give \<open>n + 1\<close> fields.
\<close>

fun py_split :: "char \<Rightarrow> string \<Rightarrow> string list" where
  "py_split sep [] = [[]]"
| "py_split sep (c # cs) =
     (if c = sep then [] # py_split sep cs
      else (case py_split sep cs of
              w # ws \<Rightarrow> (c # w) # ws
            | [] \<Rightarrow> [[c]]))"

text \<open>
  \<^verbatim>\<open>int(s)\<close> on a string of code points below 256, \<open>None\<close> for \<^verbatim>\<open>ValueError\<close>:
  surrounding whitespace, an optional sign, then decimal digits, single underscores allowed
  between digits. CPython from 3.11 on also rejects more than 4300 digits; the functions
  below therefore take the parser as a parameter, and \<open>py_int\<close> is the instance used in
  the examples.
\<close>

definition is_digit :: "char \<Rightarrow> bool" where
  "is_digit c = (48 \<le> (of_char c :: nat) \<and> (of_char c :: nat) \<le> 57)"

fun int_digits :: "nat \<Rightarrow> string \<Rightarrow> nat option" where
  "int_digits acc [] = Some acc"
| "int_digits acc (c # cs) =
     (if is_digit c then int_digits (10 * acc + (of_char c - 48)) cs
      else if c = CHR ''_'' then
        (case cs of
           [] \<Rightarrow> None
         | d # ds \<Rightarrow> if is_digit d then int_digits acc cs else None)
      else None)"

definition py_int :: "string \<Rightarrow> int option" where
  "py_int s =
     (let t = py_strip s;
          (sign, body) = (case t of
                            c # r \<Rightarrow> if c = CHR ''-'' then (- 1, r)
                                     else if c = CHR ''+'' then (1, r) else (1, t)
                          | [] \<Rightarrow> (1, t))
      in case body of
           [] \<Rightarrow> None
         | c # cs \<Rightarrow> if is_digit c then map_option (\<lambda>n. sign * int n) (int_digits 0 body)
                     else None)"

section \<open>Output truncation and rendering (test\_execution.py)\<close>

text \<open>
  The two fixed pieces of text that \<^verbatim>\<open>truncate_output\<close> puts around the kept parts:
  the header line and the marker \<^verbatim>\<open>[Truncating N characters]\<close>, each with its blank
  lines.
\<close>

definition truncation_header :: string where
  "truncation_header = ''[Output too long, truncating middle portion]'' @ [NL, NL]"

definition elision_marker :: "int \<Rightarrow> string" where
  "elision_marker k = [NL, NL] @ ''[Truncating '' @ str_int k @ '' characters]'' @ [NL, NL]"

text \<open>
  \<^verbatim>\<open>truncate_output(output, max_length)\<close>. The two kept parts are the Python slices
  \<^verbatim>\<open>output[:front_length]\<close> and \<^verbatim>\<open>output[len(output) - back_length:]\<close>.
\<close>

definition truncate_output :: "string \<Rightarrow> int \<Rightarrow> string" where
  "truncate_output output max_length =
     (if int (length output) \<le> max_length then output
      else
        let front_length = max_length div 2;
            back_length = max_length - front_length;
            num_truncatable_chars = int (length output) - max_length
        in truncation_header
           @ py_slice_to output front_length
           @ elision_marker num_truncatable_chars
           @ py_slice_from output (int (length output) - back_length))"

text \<open>
  The dataclass \<^verbatim>\<open>ExecutionOutput\<close> (\<^verbatim>\<open>stdout: str | None\<close>) and its method
  \<^verbatim>\<open>render_stdout(self, max_chars: int | None = None)\<close>.
\<close>

record ExecutionOutput =
  stdout :: "string option"
  exit_code :: int
  timed_out :: bool

definition render_stdout :: "ExecutionOutput \<Rightarrow> int option \<Rightarrow> string" where
  "render_stdout self max_chars =
     (if timed_out self then ''[Running script timed out]''
      else case stdout self of
        None \<Rightarrow> ''[Running script produced no output]''
      | Some s \<Rightarrow>
          (case max_chars of
             None \<Rightarrow> s
           | Some m \<Rightarrow> truncate_output s m))"

section \<open>Context chunks (localization.py)\<close>

text \<open>
  \<^verbatim>\<open>ContextChunk(line_number, content)\<close>: the 1-based number of the first line and the
  lines themselves. \<^verbatim>\<open>RelevantChunks(message, chunks, file_path)\<close> is what
  \<^verbatim>\<open>create_context_chunks\<close> returns.
\<close>

record ContextChunk =
  line_number :: int
  content :: "string list"

record RelevantChunks =
  message :: string
  chunks :: "ContextChunk list"
  file_path :: string

text \<open>
  The body of the \<^verbatim>\<open>try\<close> in the first loop:
  \<^verbatim>\<open>line_num = int(loc.split(":")[1].strip())\<close>. The parser \<open>to_int\<close> stands for
  Python's \<^verbatim>\<open>int\<close>.
\<close>

definition parse_line_location :: "(string \<Rightarrow> int option) \<Rightarrow> string \<Rightarrow> py_error + int" where
  "parse_line_location to_int loc =
     (case py_index (py_split CHR '':'' loc) 1 of
        Inl e \<Rightarrow> Inl e
      | Inr field \<Rightarrow>
          (case to_int (py_strip field) of
             None \<Rightarrow> Inl ValueError
           | Some line_num \<Rightarrow> Inr line_num))"

text \<open>
  The first loop, over \<^verbatim>\<open>locations\<close>, with the set \<^verbatim>\<open>line_numbers\<close> as accumulator.
  \<^verbatim>\<open>except ValueError: continue\<close> catches a \<^verbatim>\<open>ValueError\<close> only; any other
  exception leaves the function.
\<close>

fun extract_line_numbers ::
  "(string \<Rightarrow> int option) \<Rightarrow> string list \<Rightarrow> int set \<Rightarrow> py_error + int set" where
  "extract_line_numbers to_int [] line_numbers = Inr line_numbers"
| "extract_line_numbers to_int (loc # locations) line_numbers =
     (if py_startswith loc ''line:'' then
        (case parse_line_location to_int loc of
           Inr line_num \<Rightarrow> extract_line_numbers to_int locations (insert line_num line_numbers)
         | Inl ValueError \<Rightarrow> extract_line_numbers to_int locations line_numbers
         | Inl e \<Rightarrow> Inl e)
      else extract_line_numbers to_int locations line_numbers)"

text \<open>
  The second loop, over \<^verbatim>\<open>sorted(line_numbers)\<close>: a line number out of
  \<open>1..len(lines)\<close> is skipped, every other one gives the chunk of the lines
  \<open>max(1, line_num - context_lines) .. min(len(lines), line_num + context_lines)\<close>.
\<close>

definition window_chunk :: "string list \<Rightarrow> int \<Rightarrow> int \<Rightarrow> ContextChunk" where
  "window_chunk lines context_lines line_num =
     (let start_line = max 1 (line_num - context_lines);
          end_line = min (int (length lines)) (line_num + context_lines)
      in \<lparr>line_number = start_line, content = py_slice lines (start_line - 1) end_line\<rparr>)"

definition initial_chunks :: "string list \<Rightarrow> int \<Rightarrow> int set \<Rightarrow> ContextChunk list" where
  "initial_chunks lines context_lines line_numbers =
     map (window_chunk lines context_lines)
       (filter (\<lambda>line_num. \<not> (line_num < 1 \<or> line_num > int (length lines)))
          (sorted_list_of_set line_numbers))"

text \<open>
  The third loop, \<^verbatim>\<open>for next_chunk in chunks[1:]\<close>, with \<^verbatim>\<open>current_chunk\<close> and
  the list \<^verbatim>\<open>combined_chunks\<close> as state. A merge replaces the content of the current
  chunk by a fresh slice of the file's lines and keeps its line number; after the loop the
  current chunk is appended.
\<close>

fun combine_loop ::
  "string list \<Rightarrow> ContextChunk \<Rightarrow> ContextChunk list \<Rightarrow> ContextChunk list \<Rightarrow> ContextChunk list" where
  "combine_loop lines current_chunk [] combined_chunks = combined_chunks @ [current_chunk]"
| "combine_loop lines current_chunk (next_chunk # rest) combined_chunks =
     (let current_end = line_number current_chunk + int (length (content current_chunk))
      in if line_number next_chunk \<le> current_end then
           combine_loop lines
             (current_chunk\<lparr>content :=
                py_slice lines (line_number current_chunk - 1)
                  (line_number next_chunk + int (length (content next_chunk)) - 1)\<rparr>)
             rest combined_chunks
         else combine_loop lines next_chunk rest (combined_chunks @ [current_chunk]))"

text \<open>
  The combine step as a whole, from \<^verbatim>\<open>if not chunks: return ...chunks=[]\<close> to
  \<^verbatim>\<open>combined_chunks.append(current_chunk)\<close>.
\<close>

definition combine_chunks :: "string list \<Rightarrow> ContextChunk list \<Rightarrow> ContextChunk list" where
  "combine_chunks lines chunks0 =
     (case chunks0 of
        [] \<Rightarrow> []
      | first_chunk # rest \<Rightarrow> combine_loop lines first_chunk rest [])"

definition create_context_chunks ::
  "(string \<Rightarrow> int option) \<Rightarrow> string \<Rightarrow> string list \<Rightarrow> string \<Rightarrow> string \<Rightarrow> int
     \<Rightarrow> py_error + RelevantChunks" where
  "create_context_chunks to_int msg locations fpath fcontent context_lines =
     (case extract_line_numbers to_int locations {} of
        Inl e \<Rightarrow> Inl e
      | Inr line_numbers \<Rightarrow>
          if line_numbers = {} then Inr \<lparr>message = msg, chunks = [], file_path = fpath\<rparr>
          else
            let lines = py_split NL fcontent;
                chunks0 = initial_chunks lines context_lines line_numbers
            in Inr \<lparr>message = msg, chunks = combine_chunks lines chunks0, file_path = fpath\<rparr>)"

subsection \<open>Notions used to state the properties\<close>

text \<open>
  \<open>chunk_end c\<close> is the number of the line after the last line of \<open>c\<close> (the code's
  \<^verbatim>\<open>current_end\<close>); \<open>c\<close> covers the line numbers from \<open>line_number c\<close> up to, but not
  including, \<open>chunk_end c\<close>. Two chunks are \<open>apart\<close> when the second starts after
  \<open>chunk_end\<close> of the first, so that the line numbered \<open>chunk_end\<close> of the first lies
  between them and belongs to neither.
\<close>

definition chunk_end :: "ContextChunk \<Rightarrow> int" where
  "chunk_end c = line_number c + int (length (content c))"

definition covers :: "ContextChunk \<Rightarrow> int \<Rightarrow> bool" where
  "covers c L = (line_number c \<le> L \<and> L < chunk_end c)"

definition apart :: "ContextChunk \<Rightarrow> ContextChunk \<Rightarrow> bool" where
  "apart a b = (chunk_end a < line_number b)"

definition in_range :: "string list \<Rightarrow> int \<Rightarrow> bool" where
  "in_range lines L = (1 \<le> L \<and> L \<le> int (length lines))"

text \<open>
  A chunk that is a non-empty window of the file: its content is the slice of the file's
  lines that its line number and length denote.
\<close>

definition window_of :: "string list \<Rightarrow> ContextChunk \<Rightarrow> bool" where
  "window_of lines c =
     (1 \<le> line_number c \<and> line_number c < chunk_end c \<and> chunk_end c \<le> int (length lines) + 1 \<and>
      content c = py_slice lines (line_number c - 1) (chunk_end c - 1))"

definition ordered :: "ContextChunk \<Rightarrow> ContextChunk \<Rightarrow> bool" where
  "ordered a b = (line_number a \<le> line_number b \<and> chunk_end a \<le> chunk_end b)"

text \<open>The line numbers that the location strings denote.\<close>

definition located_lines :: "(string \<Rightarrow> int option) \<Rightarrow> string list \<Rightarrow> int set" where
  "located_lines to_int locations =
     {n. \<exists>loc \<in> set locations. py_startswith loc ''line:'' \<and> parse_line_location to_int loc = Inr n}"

text \<open>A file of ten lines and a list of locations, for the examples.\<close>

definition example_file :: string where
  "example_file = ''a'' @ [NL] @ ''b'' @ [NL] @ ''c'' @ [NL] @ ''d'' @ [NL] @ ''e'' @ [NL] @ ''f''
     @ [NL] @ ''g'' @ [NL] @ ''h'' @ [NL] @ ''i'' @ [NL] @ ''j''"

definition example_locations :: "string list" where
  "example_locations =
     [''line: 2'', ''line:9'', ''content: x'', ''line: 99'', ''line: 3'', ''line: zz'', ''line:0'']"

section \<open>Deriving a patch from two versions (export\_final\_patches.py)\<close>

text \<open>
  \<^verbatim>\<open>str.splitlines()\<close>: a line ends at a line feed, a carriage return (with a line feed
  that follows it, if any), or one of the code points 11, 12, 28, 29, 30 and 133; the
  terminators are dropped and a terminator at the very end opens no further line.
\<close>

definition is_line_boundary :: "char \<Rightarrow> bool" where
  "is_line_boundary c = ((of_char c :: nat) \<in> {10, 11, 12, 13, 28, 29, 30, 133})"

fun py_splitlines :: "string \<Rightarrow> string list" where
  "py_splitlines [] = []"
| "py_splitlines (c # cs) =
     (if c = CHR 0x0D then
        (case cs of
           [] \<Rightarrow> [[]]
         | d # ds \<Rightarrow> if d = NL then [] # py_splitlines ds else [] # py_splitlines cs)
      else if is_line_boundary c then [] # py_splitlines cs
      else (case py_splitlines cs of
              [] \<Rightarrow> [[c]]
            | l # ls \<Rightarrow> (c # l) # ls))"

text \<open>
  The models \<^verbatim>\<open>Edit\<close> and \<^verbatim>\<open>Patch\<close>. The field \<^verbatim>\<open>line_number\<close> of \<^verbatim>\<open>Edit\<close>
  is \<open>edit_line_number\<close> here, the name \<open>line_number\<close> being the chunk's.
\<close>

record Edit =
  file_name :: string
  edit_line_number :: int
  line_content :: string
  new_line_content :: string

record Patch =
  edits :: "Edit list"

text \<open>\<^verbatim>\<open>lines[i] if i < len(lines) else ""\<close>.\<close>

definition line_or_empty :: "string list \<Rightarrow> nat \<Rightarrow> string" where
  "line_or_empty lines i = (if i < length lines then lines ! i else [])"

text \<open>The body of the outer loop: the edits of one file, by the loop over \<^verbatim>\<open>range(max_lines)\<close>.\<close>

definition file_edits :: "string \<Rightarrow> string \<Rightarrow> string \<Rightarrow> Edit list" where
  "file_edits fname old_content new_content =
     (let old_lines = py_splitlines old_content;
          new_lines = py_splitlines new_content;
          max_lines = max (length old_lines) (length new_lines)
      in concat (map (\<lambda>i.
           let old_line = line_or_empty old_lines i;
               new_line = line_or_empty new_lines i
           in if old_line \<noteq> new_line then
                [\<lparr>file_name = fname, edit_line_number = int i,
                  line_content = old_line, new_line_content = new_line\<rparr>]
              else []) [0..<max_lines]))"

text \<open>
  \<^verbatim>\<open>create_patch(file_names, old_contents, new_contents)\<close>: the outer loop runs over
  \<^verbatim>\<open>zip(file_names, old_contents, new_contents)\<close>, which stops with the shortest list.
\<close>

definition create_patch :: "string list \<Rightarrow> string list \<Rightarrow> string list \<Rightarrow> Patch" where
  "create_patch file_names old_contents new_contents =
     \<lparr>edits = concat (map (\<lambda>(fname, old_content, new_content).
                 file_edits fname old_content new_content)
               (zip file_names (zip old_contents new_contents)))\<rparr>"

subsection \<open>Notions used to state the properties\<close>

text \<open>
  The edit that index \<open>i\<close> gives, and whether the two files differ at index \<open>i\<close>, a line
  past the end of a file counting as the empty line.
\<close>

definition edit_at :: "string \<Rightarrow> string list \<Rightarrow> string list \<Rightarrow> nat \<Rightarrow> Edit" where
  "edit_at fname old_lines new_lines i =
     \<lparr>file_name = fname, edit_line_number = int i,
      line_content = line_or_empty old_lines i, new_line_content = line_or_empty new_lines i\<rparr>"

definition differs_at :: "string list \<Rightarrow> string list \<Rightarrow> nat \<Rightarrow> bool" where
  "differs_at old_lines new_lines i = (line_or_empty old_lines i \<noteq> line_or_empty new_lines i)"

text \<open>Two versions of a file that differ in their second line, for the examples.\<close>

definition example_old :: string where
  "example_old = ''x = 1'' @ [NL] @ ''y = 2'' @ [NL] @ ''z = 3'' @ [NL]"

definition example_new :: string where
  "example_new = ''x = 1'' @ [NL] @ ''y = 5'' @ [NL] @ ''z = 3'' @ [NL]"

section \<open>Sandboxed script execution (test\_execution.py)\<close>

text \<open>
  The two runners talk to the outside world: a container, or \<^verbatim>\<open>subprocess\<close> and the file
  system. The outside world is a parameter of the model: a record of functions that say, for
  a command and the state it runs in, what comes back and what the state is afterwards. The
  theorems hold for every such record. The runners' own \<^verbatim>\<open>print\<close> calls are left out,
  and \<^verbatim>\<open>timeout\<close> is the integer that \<^verbatim>\<open>int(timeout)\<close> gives.
\<close>

text \<open>The command line of the script run, the same in both runners.\<close>

definition script_command :: string where
  "script_command =
     ''bash -c '' @ [CHR 0x27] @
     ''source /opt/miniconda3/bin/activate && conda activate testbed && python reproduce_script.py''
     @ [CHR 0x27]"

text \<open>\<^verbatim>\<open>if not patch.endswith("\n"): patch = patch + "\n"\<close>, with the line feed written out.\<close>

definition normalize_patch :: "string \<Rightarrow> string" where
  "normalize_patch patch = (if \<not> py_endswith patch [NL] then patch @ [NL] else patch)"

definition could_not_apply :: ExecutionOutput where
  "could_not_apply =
     \<lparr>stdout = Some ''Could not apply patch to repository'', exit_code = 1, timed_out = False\<rparr>"

subsection \<open>The container runner\<close>

text \<open>
  \<^verbatim>\<open>SWEBenchContainerAPI\<close> is not part of the sources at hand; the runner uses its
  \<^verbatim>\<open>write_file\<close>, \<^verbatim>\<open>exec_run\<close> (which gives \<^verbatim>\<open>exit_code\<close> and \<^verbatim>\<open>output\<close>) and
  \<^verbatim>\<open>exec_run_with_timeout\<close> (which gives \<^verbatim>\<open>output\<close>, \<^verbatim>\<open>exit_code\<close> and
  \<^verbatim>\<open>timed_out\<close>). They are the fields of \<open>container_api\<close>, over an arbitrary type
  \<open>'c\<close> of container states; \<open>c_start\<close> is the state of the container that the
  \<^verbatim>\<open>with\<close> statement starts for the problem, and \<open>c_decode\<close> is
  \<^verbatim>\<open>bytes.decode("utf-8")\<close>, \<open>None\<close> when it raises. An output is a \<^verbatim>\<open>str\<close> or
  \<^verbatim>\<open>bytes\<close>. The runner returns its result together with the list of what it did in the
  container, in order.
\<close>

datatype exec_output = OutStr string | OutBytes string

record 'c container_api =
  c_start :: 'c
  c_write_file :: "string \<Rightarrow> string \<Rightarrow> 'c \<Rightarrow> 'c"
  c_exec_run :: "string \<Rightarrow> string \<Rightarrow> 'c \<Rightarrow> (int \<times> exec_output) \<times> 'c"
  c_exec_run_with_timeout :: "string \<Rightarrow> string \<Rightarrow> int \<Rightarrow> 'c \<Rightarrow> (exec_output \<times> int \<times> bool) \<times> 'c"
  c_decode :: "string \<Rightarrow> string option"

datatype container_event =
    Wrote string
  | Ran string int
  | RanTimed string int bool

definition git_apply_cmd :: string where
  "git_apply_cmd = ''git apply -v /tmp/patch.diff''"

definition fuzzy_patch_cmd :: string where
  "fuzzy_patch_cmd = ''patch --batch --fuzz=5 -p1 -i /tmp/patch.diff''"

text \<open>
  The second half of \<^verbatim>\<open>execute_script_container\<close>: write the script, run it under the
  timeout, decode the output and build the \<^verbatim>\<open>ExecutionOutput\<close>.
\<close>

definition run_script_container ::
  "'c container_api \<Rightarrow> string \<Rightarrow> int \<Rightarrow> 'c \<Rightarrow> container_event list
     \<Rightarrow> (py_error + ExecutionOutput) \<times> container_event list" where
  "run_script_container api script timeout c events =
     (let c1 = c_write_file api script ''/tmp/repro/reproduce_script.py'' c;
          ((out_output, out_exit_code, out_timed_out), c2) =
             c_exec_run_with_timeout api script_command ''/tmp/repro'' timeout c1;
          events' = events @ [Wrote ''/tmp/repro/reproduce_script.py'',
                              RanTimed script_command out_exit_code out_timed_out]
      in case (case out_output of OutStr s \<Rightarrow> Some s | OutBytes b \<Rightarrow> c_decode api b) of
           None \<Rightarrow> (Inl UnicodeDecodeError, events')
         | Some s \<Rightarrow>
             (Inr \<lparr>stdout = Some s,
                   exit_code = (if \<not> out_timed_out then out_exit_code else 1),
                   timed_out = out_timed_out\<rparr>, events'))"

definition execute_script_container ::
  "'c container_api \<Rightarrow> string \<Rightarrow> string option \<Rightarrow> int \<Rightarrow> bool
     \<Rightarrow> (py_error + ExecutionOutput) \<times> container_event list" where
  "execute_script_container api script patch timeout return_error_as_execution_output =
     (case patch of
        None \<Rightarrow> run_script_container api script timeout (c_start api) []
      | Some p \<Rightarrow>
          (let c1 = c_write_file api (normalize_patch p) ''/tmp/patch.diff'' (c_start api);
               ((patch_apply_exit_code, patch_apply_output), c2) =
                  c_exec_run api git_apply_cmd ''/testbed'' c1;
               events = [Wrote ''/tmp/patch.diff'', Ran git_apply_cmd patch_apply_exit_code]
           in if patch_apply_exit_code \<noteq> 0 then
                (let ((fuzzy_patch_apply_exit_code, fuzzy_patch_apply_output), c3) =
                        c_exec_run api fuzzy_patch_cmd ''/testbed'' c2;
                     events' = events @ [Ran fuzzy_patch_cmd fuzzy_patch_apply_exit_code]
                 in if fuzzy_patch_apply_exit_code \<noteq> 0 then
                      (if return_error_as_execution_output then (Inr could_not_apply, events')
                       else (Inl ValueError, events'))
                    else run_script_container api script timeout c3 events')
              else run_script_container api script timeout c2 events))"

subsection \<open>The local runner\<close>

text \<open>
  \<^verbatim>\<open>subprocess.run\<close> is given a command (an argument list, or a string with
  \<^verbatim>\<open>shell=True\<close>), a working directory and perhaps a timeout. It returns a
  \<^verbatim>\<open>CompletedProcess\<close> with a return code and the captured stdout, or raises
  \<^verbatim>\<open>TimeoutExpired\<close> or another exception, of which the handlers use \<^verbatim>\<open>str(e)\<close>.

  The file system is a map from directory paths to trees of an arbitrary type \<open>'tree\<close>.
  A \<open>host\<close> says what a command does when run in a tree (\<open>run_proc\<close>: the outcome and the
  tree afterwards), what writing a file into a tree does (\<open>write_text\<close>, \<open>Inl\<close> for an
  exception), how bytes decode, and which fresh directories \<^verbatim>\<open>TemporaryDirectory()\<close>
  hands out. A command changes the tree of its working directory only: this is the
  assumption under which the effect of a run on a tree can be stated at all, since a script
  may otherwise touch any path. The \<open>world\<close> also keeps the log of the commands run, each
  with its working directory and outcome.
\<close>

datatype command = Argv "string list" | Shell string

datatype exn_kind = TimeoutExpired | OtherException

datatype captured = NotCaptured | Text string | Bytes string

datatype outcome = Exited int captured | Raised exn_kind string

record 'tree host =
  run_proc :: "command \<Rightarrow> int option \<Rightarrow> 'tree \<Rightarrow> outcome \<times> 'tree"
  write_text :: "string \<Rightarrow> string \<Rightarrow> 'tree \<Rightarrow> string + 'tree"
  decode_utf8 :: "string \<Rightarrow> string + string"
  temp_dir :: string
  patch_temp_dir :: string

record 'tree world =
  fs :: "string \<Rightarrow> 'tree option"
  log :: "(string \<times> command \<times> outcome) list"

definition git_reset_argv :: "string \<Rightarrow> command" where
  "git_reset_argv base_commit = Argv [''git'', ''reset'', ''--hard'', base_commit]"

definition git_apply_argv :: "string \<Rightarrow> command" where
  "git_apply_argv temp_repo_location =
     Argv [''git'', ''apply'', ''-v'', temp_repo_location @ ''/patch.diff'']"

definition fuzzy_patch_argv :: "string \<Rightarrow> command" where
  "fuzzy_patch_argv temp_repo_location =
     Argv [''patch'', ''--batch'', ''--fuzz=5'', ''-p1'', ''-i'',
           temp_repo_location @ ''/patch.diff'']"

text \<open>
  \<^verbatim>\<open>subprocess.run(cmd, cwd=cwd, check=False, ...)\<close>: a working directory that does not
  exist raises; otherwise the host decides, and the tree at \<open>cwd\<close> is replaced.
\<close>

definition subprocess_run ::
  "'tree host \<Rightarrow> command \<Rightarrow> string \<Rightarrow> int option \<Rightarrow> 'tree world \<Rightarrow> outcome \<times> 'tree world" where
  "subprocess_run h cmd cwd timeout w =
     (case fs w cwd of
        None \<Rightarrow>
          (let r = Raised OtherException ''No such file or directory''
           in (r, w\<lparr>log := log w @ [(cwd, cmd, r)]\<rparr>))
      | Some t \<Rightarrow>
          (let (r, t') = run_proc h cmd timeout t
           in (r, w\<lparr>fs := (fs w)(cwd \<mapsto> t'), log := log w @ [(cwd, cmd, r)]\<rparr>)))"

text \<open>\<^verbatim>\<open>with open(dir / name, "w") as f: f.write(text)\<close>; \<open>Some e\<close> is an exception.\<close>

definition open_write ::
  "'tree host \<Rightarrow> string \<Rightarrow> string \<Rightarrow> string \<Rightarrow> 'tree world \<Rightarrow> string option \<times> 'tree world" where
  "open_write h dir name text w =
     (case fs w dir of
        None \<Rightarrow> (Some ''No such file or directory'', w)
      | Some t \<Rightarrow>
          (case write_text h name text t of
             Inl e \<Rightarrow> (Some e, w)
           | Inr t' \<Rightarrow> (None, w\<lparr>fs := (fs w)(dir \<mapsto> t')\<rparr>)))"

text \<open>
  The body of \<^verbatim>\<open>if patch_apply_exit_code != 0:\<close> in \<^verbatim>\<open>execute_script\<close>. When the
  fuzzy command raises and \<^verbatim>\<open>return_error_as_execution_output\<close> is false, the next
  statement reads \<^verbatim>\<open>fuzzy_patch_apply_exit_code\<close>, which has not been assigned.
\<close>

definition fuzzy_stage_local ::
  "'tree host \<Rightarrow> string \<Rightarrow> bool \<Rightarrow> 'tree world
     \<Rightarrow> (py_error + ExecutionOutput) option \<times> 'tree world" where
  "fuzzy_stage_local h temp_repo_location return_error_as_execution_output w =
     (let (r, w1) = subprocess_run h (fuzzy_patch_argv temp_repo_location)
                      temp_repo_location None w
      in case r of
           Raised k e \<Rightarrow>
             if return_error_as_execution_output then
               (Some (Inr \<lparr>stdout = Some (''Error applying fuzzy patch: '' @ e),
                           exit_code = 1, timed_out = False\<rparr>), w1)
             else (Some (Inl UnboundLocalError), w1)
         | Exited fuzzy_patch_apply_exit_code out \<Rightarrow>
             if fuzzy_patch_apply_exit_code \<noteq> 0 then
               (if return_error_as_execution_output then (Some (Inr could_not_apply), w1)
                else (Some (Inl ValueError), w1))
             else (None, w1))"

text \<open>
  The statements after the \<^verbatim>\<open>try\<close>:
  \<^verbatim>\<open>patch_apply_exit_code = 0\<close>, then \<^verbatim>\<open>if patch_apply_exit_code != 0:\<close>.
\<close>

definition after_apply_local ::
  "'tree host \<Rightarrow> string \<Rightarrow> bool \<Rightarrow> 'tree world
     \<Rightarrow> (py_error + ExecutionOutput) option \<times> 'tree world" where
  "after_apply_local h temp_repo_location return_error_as_execution_output w =
     (let patch_apply_exit_code = (0 :: int)
      in if patch_apply_exit_code \<noteq> 0 then
           fuzzy_stage_local h temp_repo_location return_error_as_execution_output w
         else (None, w))"

text \<open>
  The handler \<^verbatim>\<open>except Exception as e\<close> of the \<^verbatim>\<open>try\<close>: it returns only when
  \<^verbatim>\<open>return_error_as_execution_output\<close> is set, and otherwise falls through to the
  statements after the \<^verbatim>\<open>try\<close>.
\<close>

definition apply_raised_local ::
  "'tree host \<Rightarrow> string \<Rightarrow> bool \<Rightarrow> string \<Rightarrow> 'tree world
     \<Rightarrow> (py_error + ExecutionOutput) option \<times> 'tree world" where
  "apply_raised_local h temp_repo_location return_error_as_execution_output e w =
     (if return_error_as_execution_output then
        (Some (Inr \<lparr>stdout = Some (''Error applying patch: '' @ e),
                    exit_code = 1, timed_out = False\<rparr>), w)
      else after_apply_local h temp_repo_location return_error_as_execution_output w)"

text \<open>
  The branch \<^verbatim>\<open>if patch is not None:\<close> of \<^verbatim>\<open>execute_script\<close>. The \<^verbatim>\<open>try\<close> runs
  \<^verbatim>\<open>git reset --hard\<close>, writes \<^verbatim>\<open>patch.diff\<close> and runs \<^verbatim>\<open>git apply -v\<close>, all with
  \<^verbatim>\<open>check=False\<close>; the results of the two commands are not looked at. \<open>Some r\<close> is a
  return or a raise of the runner, \<open>None\<close> goes on to the script.
\<close>

definition patch_stage_local ::
  "'tree host \<Rightarrow> string \<Rightarrow> string \<Rightarrow> string \<Rightarrow> bool \<Rightarrow> 'tree world
     \<Rightarrow> (py_error + ExecutionOutput) option \<times> 'tree world" where
  "patch_stage_local h base_commit temp_repo_location patch return_error_as_execution_output w =
     (let (r1, w1) = subprocess_run h (git_reset_argv base_commit) temp_repo_location None w
      in case r1 of
           Raised k e \<Rightarrow>
             apply_raised_local h temp_repo_location return_error_as_execution_output e w1
         | Exited c1 o1 \<Rightarrow>
             (case open_write h temp_repo_location ''patch.diff'' (normalize_patch patch) w1 of
                (Some e, w2) \<Rightarrow>
                  apply_raised_local h temp_repo_location return_error_as_execution_output e w2
              | (None, w2) \<Rightarrow>
                  (let (r3, w3) = subprocess_run h (git_apply_argv temp_repo_location)
                                    temp_repo_location None w2
                   in case r3 of
                        Raised k e \<Rightarrow>
                          apply_raised_local h temp_repo_location
                            return_error_as_execution_output e w3
                      | Exited c3 o3 \<Rightarrow>
                          after_apply_local h temp_repo_location
                            return_error_as_execution_output w3)))"

text \<open>
  The last \<^verbatim>\<open>try\<close> of \<^verbatim>\<open>execute_script\<close>: write \<^verbatim>\<open>reproduce_script.py\<close> into the
  copy and run the script command there under the timeout.
\<close>

definition script_stage_local ::
  "'tree host \<Rightarrow> string \<Rightarrow> string \<Rightarrow> int \<Rightarrow> 'tree world \<Rightarrow> ExecutionOutput \<times> 'tree world" where
  "script_stage_local h temp_repo_location script timeout w =
     (case open_write h temp_repo_location ''reproduce_script.py'' script w of
        (Some e, w1) \<Rightarrow>
          (\<lparr>stdout = Some (''Error executing script: '' @ e), exit_code = 1, timed_out = False\<rparr>,
           w1)
      | (None, w1) \<Rightarrow>
          (let (r, w2) = subprocess_run h (Shell script_command) temp_repo_location
                           (Some timeout) w1
           in case r of
                Exited returncode out \<Rightarrow>
                  (case (case out of
                           NotCaptured \<Rightarrow> Inr ''''
                         | Text s \<Rightarrow> Inr s
                         | Bytes b \<Rightarrow> decode_utf8 h b) of
                     Inr s \<Rightarrow>
                       (\<lparr>stdout = Some s, exit_code = returncode, timed_out = False\<rparr>, w2)
                   | Inl e \<Rightarrow>
                       (\<lparr>stdout = Some (''Error running script command: '' @ e),
                         exit_code = 1, timed_out = False\<rparr>, w2))
              | Raised TimeoutExpired e \<Rightarrow>
                  (\<lparr>stdout = Some ''Script execution timed out'', exit_code = 1,
                    timed_out = True\<rparr>, w2)
              | Raised OtherException e \<Rightarrow>
                  (\<lparr>stdout = Some (''Error running script command: '' @ e),
                    exit_code = 1, timed_out = False\<rparr>, w2)))"

text \<open>
  \<^verbatim>\<open>execute_script\<close>: \<^verbatim>\<open>shutil.copytree(repo_location, temp_repo_location)\<close> into a
  fresh temporary directory, the patch stage, the script stage, and the removal of the
  temporary directory when the \<^verbatim>\<open>with\<close> block is left. \<open>base_commit\<close> is
  \<^verbatim>\<open>problem.base_commit\<close>.
\<close>

definition execute_script ::
  "'tree host \<Rightarrow> string \<Rightarrow> string \<Rightarrow> string \<Rightarrow> string option \<Rightarrow> int \<Rightarrow> bool \<Rightarrow> 'tree world
     \<Rightarrow> (py_error + ExecutionOutput) \<times> 'tree world" where
  "execute_script h script base_commit repo_location patch timeout
       return_error_as_execution_output w =
     (let temp_repo_location = temp_dir h @ ''/repo''
      in case fs w repo_location of
           None \<Rightarrow> (Inl OSError, w)
         | Some t \<Rightarrow>
             (let w0 = w\<lparr>fs := (fs w)(temp_repo_location \<mapsto> t)\<rparr>;
                  (early, w1) =
                     (case patch of
                        None \<Rightarrow> (None, w0)
                      | Some p \<Rightarrow>
                          patch_stage_local h base_commit temp_repo_location p
                            return_error_as_execution_output w0);
                  (result, w2) =
                     (case early of
                        Some r \<Rightarrow> (r, w1)
                      | None \<Rightarrow>
                          (let (out, w') = script_stage_local h temp_repo_location script timeout w1
                           in (Inr out, w')))
              in (result, w2\<lparr>fs := (fs w2)(temp_repo_location := None)\<rparr>)))"

text \<open>
  \<^verbatim>\<open>run_swebench_test_local\<close>. The loop over \<^verbatim>\<open>GIT_APPLY_CMDS\<close> runs each command with
  \<^verbatim>\<open>cwd=problem.repo_location\<close> and leaves at the first one that does not raise. The
  evaluation script of the test specification and the grading by \<^verbatim>\<open>get_eval_report\<close>
  come from outside and are parameters; of the result, the fields \<^verbatim>\<open>resolved\<close> and
  \<^verbatim>\<open>test_output\<close> are kept.
\<close>

definition GIT_APPLY_CMDS :: "string list" where
  "GIT_APPLY_CMDS =
     [''git apply --verbose'', ''git apply --verbose --reject'', ''patch --batch --fuzz=8 -p1 -l'']"

fun apply_in_place ::
  "'tree host \<Rightarrow> string \<Rightarrow> string \<Rightarrow> string list \<Rightarrow> 'tree world \<Rightarrow> 'tree world" where
  "apply_in_place h patch_path repo_location [] w = w"
| "apply_in_place h patch_path repo_location (cmd # cmds) w =
     (let full_cmd = cmd @ '' '' @ patch_path;
          (r, w1) = subprocess_run h (Shell full_cmd) repo_location None w
      in case r of
           Exited c out \<Rightarrow> w1
         | Raised k e \<Rightarrow> apply_in_place h patch_path repo_location cmds w1)"

text \<open>\<^verbatim>\<open>s.replace(old, new)\<close> for a non-empty \<open>old\<close>.\<close>

function py_replace :: "string \<Rightarrow> string \<Rightarrow> string \<Rightarrow> string" where
  "py_replace old new s =
     (if old = [] \<or> s = [] then s
      else if take (length old) s = old then new @ py_replace old new (drop (length old) s)
      else hd s # py_replace old new (tl s))"
  by pat_completeness auto
termination
  by (relation "measure (\<lambda>(old, new, s). length s)") auto

declare py_replace.simps [simp del]

record SWEBenchTestResult =
  resolved :: bool
  test_output :: "string option"

definition run_swebench_test_local ::
  "'tree host \<Rightarrow> string \<Rightarrow> (string \<Rightarrow> bool) \<Rightarrow> string \<Rightarrow> string \<Rightarrow> string \<Rightarrow> 'tree world
     \<Rightarrow> (py_error + SWEBenchTestResult) \<times> 'tree world" where
  "run_swebench_test_local h test_spec_eval_script get_eval_report base_commit repo_location
       patch w =
     (let w1 = (if patch \<noteq> [] then
                  apply_in_place h (patch_temp_dir h @ ''/patch.diff'') repo_location
                    GIT_APPLY_CMDS w
                else w);
          eval_script = py_replace ''/testbed'' repo_location test_spec_eval_script;
          (result, w2) = execute_script h eval_script base_commit repo_location (Some patch)
                           600 False w1
      in case result of
           Inl e \<Rightarrow> (Inl e, w2)
         | Inr out \<Rightarrow>
             (case stdout out of
                None \<Rightarrow> (Inl TypeError, w2)
              | Some s \<Rightarrow> (Inr \<lparr>resolved = get_eval_report s, test_output = Some s\<rparr>, w2)))"


subsection \<open>Notions used to state the properties\<close>

definition patch_stage_of ::
  "'tree host \<Rightarrow> string \<Rightarrow> string option \<Rightarrow> bool \<Rightarrow> 'tree world
     \<Rightarrow> (py_error + ExecutionOutput) option \<times> 'tree world" where
  "patch_stage_of h bc patch flag w0 =
     (case patch of
        None \<Rightarrow> (None, w0)
      | Some p \<Rightarrow> patch_stage_local h bc (temp_dir h @ ''/repo'') p flag w0)"

definition timed_out_output :: ExecutionOutput where
  "timed_out_output =
     \<lparr>stdout = Some ''Script execution timed out'', exit_code = 1, timed_out = True\<rparr>"

text \<open>
  Example containers and hosts. A tree or container state is the list of the marks left on
  it; the mark \<open>patched\<close> is left by a patch command that succeeds. \<open>git apply\<close> exits with
  \<open>git_rc\<close>, the fuzzy \<open>patch\<close> with \<open>fuzzy_rc\<close> in the container and with 0 on the host;
  the script exits with 0 on a patched tree and with 2 on an unpatched one, or runs into the
  timeout when \<open>slow\<close> is set.
\<close>

definition example_container :: "int \<Rightarrow> int \<Rightarrow> bool \<Rightarrow> string list container_api" where
  "example_container git_rc fuzzy_rc slow =
     \<lparr>c_start = [],
      c_write_file = (\<lambda>text path c. c),
      c_exec_run = (\<lambda>cmd workdir c.
         if cmd = git_apply_cmd then
           ((git_rc, OutStr []), if git_rc = 0 then c @ [''patched''] else c)
         else ((fuzzy_rc, OutStr []), if fuzzy_rc = 0 then c @ [''patched''] else c)),
      c_exec_run_with_timeout = (\<lambda>cmd workdir timeout c.
         if slow then ((OutStr [], 137, True), c)
         else ((OutStr ''ran'', if ''patched'' \<in> set c then 0 else 2, False), c)),
      c_decode = Some\<rparr>"

fun example_run :: "int \<Rightarrow> bool \<Rightarrow> command \<Rightarrow> int option \<Rightarrow> string list \<Rightarrow> outcome \<times> string list" where
  "example_run git_rc slow (Argv argv) timeout t =
     (if take 2 argv = [''git'', ''apply''] then
        (Exited git_rc NotCaptured, if git_rc = 0 then t @ [''patched''] else t)
      else if take 1 argv = [''patch''] then (Exited 0 NotCaptured, t @ [''patched''])
      else (Exited 0 NotCaptured, t))"
| "example_run git_rc slow (Shell c) timeout t =
     (if take 9 c = ''git apply'' then
        (Exited git_rc (Bytes []), if git_rc = 0 then t @ [''patched''] else t)
      else if slow then (Raised TimeoutExpired ''timed out'', t)
      else (Exited (if ''patched'' \<in> set t then 0 else 2) (Bytes ''ran''), t))"

definition example_host :: "int \<Rightarrow> bool \<Rightarrow> string list host" where
  "example_host git_rc slow =
     \<lparr>run_proc = example_run git_rc slow,
      write_text = (\<lambda>name text t. Inr t),
      decode_utf8 = Inr,
      temp_dir = ''/tmp/tmpa'',
      patch_temp_dir = ''/tmp/tmpb''\<rparr>"

definition example_world :: "string list world" where
  "example_world = \<lparr>fs = [''/repo'' \<mapsto> []], log = []\<rparr>"

definition example_report :: "string \<Rightarrow> bool" where
  "example_report test_log = (test_log = ''ran'')"



section \<open>Localization work items (localization.py)\<close>

text \<open>
  \<^verbatim>\<open>_parse_response\<close> searches the reply for the pattern
  \<^verbatim>\<open>LOCATIONS:\s*\n```(.*?)```\<close> with \<^verbatim>\<open>re.DOTALL\<close>: the word, then whitespace that
  ends in a line feed, then a fence of three backquotes, then the shortest text up to the
  next fence. Since a backquote is not whitespace, the whitespace matched is the whole run
  of whitespace after the word. \<^verbatim>\<open>re.search\<close> tries the positions from left to right.
\<close>

definition fence :: string where
  "fence = [CHR 0x60, CHR 0x60, CHR 0x60]"

fun find_fence :: "string \<Rightarrow> string option" where
  "find_fence [] = None"
| "find_fence (c # cs) =
     (if py_startswith (c # cs) fence then Some []
      else map_option ((#) c) (find_fence cs))"

definition match_locations_here :: "string \<Rightarrow> string option" where
  "match_locations_here s =
     (if py_startswith s ''LOCATIONS:'' then
        (let rest = drop (length ''LOCATIONS:'') s;
             spaces = takeWhile py_isspace rest;
             after = dropWhile py_isspace rest
         in if spaces \<noteq> [] \<and> last spaces = NL \<and> py_startswith after fence then
              find_fence (drop (length fence) after)
            else None)
      else None)"

fun search_locations :: "string \<Rightarrow> string option" where
  "search_locations [] = match_locations_here []"
| "search_locations (c # cs) =
     (case match_locations_here (c # cs) of
        Some g \<Rightarrow> Some g
      | None \<Rightarrow> search_locations cs)"

text \<open>
  \<^verbatim>\<open>_parse_response\<close>, reduced to the list \<^verbatim>\<open>locations\<close> of the
  \<^verbatim>\<open>RelevantLocations\<close> it returns (its \<^verbatim>\<open>message\<close> is the argument).
\<close>

definition parse_response :: "string \<Rightarrow> string list" where
  "parse_response msg =
     (case search_locations msg of
        None \<Rightarrow> []
      | Some group1 \<Rightarrow>
          (let locations_text = py_strip group1
           in if locations_text = [] then []
              else map py_strip (filter (\<lambda>loc. py_strip loc \<noteq> []) (py_split NL locations_text))))"

text \<open>
  The work item of \<^verbatim>\<open>_run_work\<close>: the problem (its statement), the file and the
  configuration (\<^verbatim>\<open>max_file_tokens\<close>). The field \<^verbatim>\<open>file\<close> is \<open>work_file\<close> and the
  field \<^verbatim>\<open>content\<close> of a file is \<open>file_content\<close> here.
\<close>

record CodebaseFile =
  path :: string
  file_content :: string

record LocalizationConfig =
  max_file_tokens :: int

record WorkItem =
  problem_statement :: string
  work_file :: CodebaseFile
  config :: LocalizationConfig

text \<open>
  What \<^verbatim>\<open>_run_work\<close> calls outside this module: the tokenizer, the prompt texts, the
  completion request (the client and its reply, \<open>Inl\<close> when the call raises) and Python's
  \<^verbatim>\<open>int\<close>. A chat is the list of (role, content) messages.
\<close>

type_synonym chat = "(string \<times> string) list"

record collaborators =
  count_tokens :: "string \<Rightarrow> int"
  get_user_prompt :: "string \<Rightarrow> string \<Rightarrow> string \<Rightarrow> string"
  SYSTEM_PROMPT :: string
  call_completions :: "chat \<Rightarrow> py_error + string"
  int_of_str :: "string \<Rightarrow> int option"

text \<open>
  Modelled from the spec: the trajectory store (\<^verbatim>\<open>config.get_trajectory_store\<close>), whose
  code is not among the sources. The spec describes a persistent store keyed by file path
  that holds the \<^verbatim>\<open>RelevantChunks\<close> of a file and supports an existence check: a
  partial map, \<^verbatim>\<open>localization_decision_exists\<close> asking whether the path has an entry
  and \<^verbatim>\<open>save_per_file_relevant_chunks\<close> writing one.
\<close>

type_synonym trajectory_store = "string \<rightharpoonup> RelevantChunks"

definition localization_decision_exists :: "trajectory_store \<Rightarrow> string \<Rightarrow> bool" where
  "localization_decision_exists store p = (store p \<noteq> None)"

definition save_per_file_relevant_chunks ::
  "trajectory_store \<Rightarrow> string \<Rightarrow> RelevantChunks \<Rightarrow> trajectory_store" where
  "save_per_file_relevant_chunks store p relevant_chunks = store(p \<mapsto> relevant_chunks)"

text \<open>
  The state that \<^verbatim>\<open>_run_work\<close> acts on: the store, and the completion requests issued
  so far. \<open>run_work\<close> returns the exception raised, if any, and the new state.
\<close>

record localization_state =
  store :: trajectory_store
  requests :: "chat list"

definition run_work ::
  "collaborators \<Rightarrow> WorkItem \<Rightarrow> localization_state \<Rightarrow> py_error option \<times> localization_state" where
  "run_work env work st =
     (if localization_decision_exists (store st) (path (work_file work)) then (None, st)
      else
        let prompt = get_user_prompt env (problem_statement work) (path (work_file work))
                       (file_content (work_file work));
            messages = [(''system'', SYSTEM_PROMPT env), (''user'', prompt)]
        in if count_tokens env (file_content (work_file work)) > max_file_tokens (config work) then
             (None, st)
           else
             (let st1 = st\<lparr>requests := requests st @ [messages]\<rparr>
              in case call_completions env messages of
                   Inl e \<Rightarrow> (Some e, st1)
                 | Inr response \<Rightarrow>
                     (case create_context_chunks (int_of_str env) response
                             (parse_response response) (path (work_file work))
                             (file_content (work_file work)) 200 of
                        Inl e \<Rightarrow> (Some e, st1)
                      | Inr relevant_chunks \<Rightarrow>
                          (None, st1\<lparr>store := save_per_file_relevant_chunks (store st1)
                                     (path (work_file work)) relevant_chunks\<rparr>))))"

text \<open>A reply, collaborators, a work item and an empty state, for the examples.\<close>

definition example_response :: string where
  "example_response = ''The file matters.'' @ [NL, NL] @ ''LOCATIONS: '' @ [NL] @ fence @ [NL]
     @ ''line: 2'' @ [NL] @ ''class: A'' @ [NL] @ '' line: 9 '' @ [NL] @ fence @ [NL]"

definition example_collaborators :: collaborators where
  "example_collaborators =
     \<lparr>count_tokens = (\<lambda>s. int (length s)),
      get_user_prompt = (\<lambda>problem p text. problem @ p @ text),
      SYSTEM_PROMPT = ''You are going to select the most relevant locations'',
      call_completions = (\<lambda>messages. Inr example_response),
      int_of_str = py_int\<rparr>"

definition example_work :: "int \<Rightarrow> WorkItem" where
  "example_work budget =
     \<lparr>problem_statement = ''crash on empty input'',
      work_file = \<lparr>path = ''a.py'', file_content = example_file\<rparr>,
      config = \<lparr>max_file_tokens = budget\<rparr>\<rparr>"

definition empty_state :: localization_state where
  "empty_state = \<lparr>store = Map.empty, requests = []\<rparr>"

section \<open>Facts about slices\<close>



section \<open>Truncation\<close>





section \<open>Rendering\<close>

text \<open>
  C9. A timed-out output renders as the fixed timeout string whatever its stored stdout and
  whatever \<open>max_chars\<close>; an output that did not time out and has no stdout renders as the
  fixed no-output string; otherwise the stdout is returned as it is when \<open>max_chars\<close> is
  absent, and passed through \<open>truncate_output\<close> only when \<open>max_chars\<close> is given.
\<close>

theorem render_stdout_spec:
  "(timed_out e \<longrightarrow> render_stdout e mc = ''[Running script timed out]'') \<and>
   (\<not> timed_out e \<and> stdout e = None \<longrightarrow>
      render_stdout e mc = ''[Running script produced no output]'') \<and>
   (\<not> timed_out e \<and> stdout e = Some s \<longrightarrow>
      render_stdout e None = s \<and> render_stdout e (Some m) = truncate_output s m)"
  by (simp add: render_stdout_def)

theorem render_stdout_spec_witness:
  "timed_out \<lparr>stdout = Some ''partial'', exit_code = 1, timed_out = True\<rparr> \<and>
   render_stdout \<lparr>stdout = Some ''partial'', exit_code = 1, timed_out = True\<rparr> (Some 3)
     = ''[Running script timed out]'' \<and>
   \<not> timed_out \<lparr>stdout = None, exit_code = 0, timed_out = False\<rparr> \<and>
   stdout \<lparr>stdout = None, exit_code = 0, timed_out = False\<rparr> = None \<and>
   render_stdout \<lparr>stdout = None, exit_code = 0, timed_out = False\<rparr> (Some 3)
     = ''[Running script produced no output]'' \<and>
   \<not> timed_out \<lparr>stdout = Some ''abc'', exit_code = 2, timed_out = False\<rparr> \<and>
   stdout \<lparr>stdout = Some ''abc'', exit_code = 2, timed_out = False\<rparr> = Some ''abc'' \<and>
   render_stdout \<lparr>stdout = Some ''abc'', exit_code = 2, timed_out = False\<rparr> None = ''abc'' \<and>
   render_stdout \<lparr>stdout = Some ''abc'', exit_code = 2, timed_out = False\<rparr> (Some 5)
     = truncate_output ''abc'' 5"
  using
    render_stdout_spec [of "\<lparr>stdout = Some ''partial'', exit_code = 1, timed_out = True\<rparr>"
      "Some 3" "''partial''" 3]
    render_stdout_spec [of "\<lparr>stdout = None, exit_code = 0, timed_out = False\<rparr>"
      "Some 3" "''x''" 3]
    render_stdout_spec [of "\<lparr>stdout = Some ''abc'', exit_code = 2, timed_out = False\<rparr>"
      None "''abc''" 5]
  by simp

section \<open>Chunk building and merging\<close>

lemma py_slice_length:
  assumes "0 \<le> a" "a \<le> b" "b \<le> int (length xs)"
  shows "length (py_slice xs a b) = nat (b - a)"
  using assms by (auto simp: py_slice_def slice_bound_def Let_def min_def)

declare combine_loop.simps [simp del]

lemma combine_loop_acc:
  "combine_loop lines cur rest acc = acc @ combine_loop lines cur rest []"
proof (induction rest arbitrary: cur acc)
  case Nil
  show ?case by (simp add: combine_loop.simps)
next
  case (Cons nxt rest)
  let ?m = "cur\<lparr>content := py_slice lines (line_number cur - 1)
                (line_number nxt + int (length (content nxt)) - 1)\<rparr>"
  show ?case
  proof (cases "line_number nxt \<le> line_number cur + int (length (content cur))")
    case True
    then have step: "combine_loop lines cur (nxt # rest) a = combine_loop lines ?m rest a" for a
      by (simp add: combine_loop.simps Let_def)
    show ?thesis unfolding step by (rule Cons.IH)
  next
    case False
    then have step: "combine_loop lines cur (nxt # rest) a = combine_loop lines nxt rest (a @ [cur])"
      for a
      by (simp add: combine_loop.simps Let_def)
    have "combine_loop lines nxt rest (acc @ [cur]) = (acc @ [cur]) @ combine_loop lines nxt rest []"
      by (rule Cons.IH)
    also have "\<dots> = acc @ ([cur] @ combine_loop lines nxt rest [])"
      by simp
    also have "[cur] @ combine_loop lines nxt rest [] = combine_loop lines nxt rest ([] @ [cur])"
      unfolding append_Nil by (rule Cons.IH [symmetric])
    finally show ?thesis unfolding step .
  qed
qed

lemma combine_loop_Nil: "combine_loop lines cur [] [] = [cur]"
  by (simp add: combine_loop.simps)

lemma combine_loop_merge:
  assumes "line_number nxt \<le> chunk_end cur"
  shows "combine_loop lines cur (nxt # rest) [] =
           combine_loop lines
             (cur\<lparr>content := py_slice lines (line_number cur - 1) (chunk_end nxt - 1)\<rparr>) rest []"
  using assms by (simp add: combine_loop.simps chunk_end_def Let_def)

lemma combine_loop_keep:
  assumes "\<not> line_number nxt \<le> chunk_end cur"
  shows "combine_loop lines cur (nxt # rest) [] = cur # combine_loop lines nxt rest []"
proof -
  have "combine_loop lines cur (nxt # rest) [] = combine_loop lines nxt rest [cur]"
    using assms by (simp add: combine_loop.simps chunk_end_def Let_def)
  also have "\<dots> = [cur] @ combine_loop lines nxt rest []"
    by (rule combine_loop_acc)
  finally show ?thesis by simp
qed

lemma combine_loop_hd:
  "\<exists>c cs. combine_loop lines cur rest [] = c # cs \<and> line_number c = line_number cur"
proof (induction rest arbitrary: cur)
  case Nil
  show ?case by (simp add: combine_loop_Nil)
next
  case (Cons nxt rest)
  show ?case
  proof (cases "line_number nxt \<le> chunk_end cur")
    case True
    then show ?thesis
      using Cons.IH [of "cur\<lparr>content := py_slice lines (line_number cur - 1) (chunk_end nxt - 1)\<rparr>"]
      by (simp add: combine_loop_merge)
  next
    case False
    then show ?thesis by (simp add: combine_loop_keep)
  qed
qed

lemma combine_loop_successively:
  "successively apart (combine_loop lines cur rest [])"
proof (induction rest arbitrary: cur)
  case Nil
  show ?case by (simp add: combine_loop_Nil)
next
  case (Cons nxt rest)
  show ?case
  proof (cases "line_number nxt \<le> chunk_end cur")
    case True
    then show ?thesis using Cons.IH by (simp add: combine_loop_merge)
  next
    case False
    obtain c cs where out: "combine_loop lines nxt rest [] = c # cs"
      and hd: "line_number c = line_number nxt"
      using combine_loop_hd by blast
    have "apart cur c" using False hd by (simp add: apart_def)
    moreover have "successively apart (c # cs)" using Cons.IH [of nxt] out by simp
    ultimately show ?thesis using False out by (simp add: combine_loop_keep)
  qed
qed

lemma combine_loop_fixed:
  "successively apart (cur # rest) \<Longrightarrow> combine_loop lines cur rest [] = cur # rest"
proof (induction rest arbitrary: cur)
  case Nil
  show ?case by (simp add: combine_loop_Nil)
next
  case (Cons nxt rest)
  then have "\<not> line_number nxt \<le> chunk_end cur" and "successively apart (nxt # rest)"
    by (simp_all add: apart_def)
  then show ?case using Cons.IH [of nxt] by (simp add: combine_loop_keep)
qed

lemma combine_chunks_successively: "successively apart (combine_chunks lines cs)"
  by (cases cs) (simp_all add: combine_chunks_def combine_loop_successively)

lemma combine_chunks_fixed:
  "successively apart cs \<Longrightarrow> combine_chunks lines cs = cs"
  by (cases cs) (simp_all add: combine_chunks_def combine_loop_fixed)

lemma combine_chunks_idem:
  "combine_chunks lines (combine_chunks lines cs) = combine_chunks lines cs"
  by (rule combine_chunks_fixed) (rule combine_chunks_successively)


lemma py_split_not_Nil: "py_split sep s \<noteq> []"
  by (induction s) (auto split: list.splits)

lemma py_split_sep_Cons: "py_split sep (sep # s) = [] # py_split sep s"
  by simp

lemma py_split_other_Cons:
  "c \<noteq> sep \<Longrightarrow> py_split sep (c # s) = (c # hd (py_split sep s)) # tl (py_split sep s)"
  using py_split_not_Nil [of sep s] by (auto split: list.splits)

lemma line_prefix_field:
  assumes "py_startswith loc ''line:''"
  shows "\<exists>field. py_index (py_split CHR '':'' loc) 1 = Inr field"
proof -
  obtain r where loc: "loc = ''line:'' @ r"
    using assms unfolding py_startswith_def by (metis append_take_drop_id)
  obtain w ws where sp: "py_split CHR '':'' r = w # ws"
    using py_split_not_Nil [of "CHR '':''" r] by (cases "py_split CHR '':'' r") auto
  have "py_split CHR '':'' loc = ''line'' # w # ws"
    unfolding loc using sp by simp
  then show ?thesis by (simp add: py_index_def)
qed

lemma parse_line_location_cases:
  assumes "py_startswith loc ''line:''"
  shows "parse_line_location to_int loc = Inl ValueError \<or>
         (\<exists>n. parse_line_location to_int loc = Inr n)"
  using line_prefix_field [OF assms]
  by (auto simp: parse_line_location_def split: option.splits)

lemma located_lines_Nil: "located_lines to_int [] = {}"
  by (simp add: located_lines_def)

lemma located_lines_Cons:
  "located_lines to_int (loc # locs) =
     (if py_startswith loc ''line:'' then
        (case parse_line_location to_int loc of Inr n \<Rightarrow> {n} | Inl e \<Rightarrow> {})
      else {}) \<union> located_lines to_int locs"
  by (auto simp: located_lines_def split: sum.splits)

lemma finite_located_lines: "finite (located_lines to_int locs)"
  by (induction locs) (auto simp: located_lines_Nil located_lines_Cons split: sum.splits)

lemma extract_line_numbers_eq:
  "extract_line_numbers to_int locs acc = Inr (acc \<union> located_lines to_int locs)"
proof (induction locs arbitrary: acc)
  case Nil
  show ?case by (simp add: located_lines_Nil)
next
  case (Cons loc locs)
  show ?case
  proof (cases "py_startswith loc ''line:''")
    case False
    then show ?thesis using Cons.IH by (simp add: located_lines_Cons)
  next
    case True
    from parse_line_location_cases [OF True, of to_int] show ?thesis
    proof
      assume "parse_line_location to_int loc = Inl ValueError"
      then show ?thesis using True Cons.IH by (simp add: located_lines_Cons)
    next
      assume "\<exists>n. parse_line_location to_int loc = Inr n"
      then obtain n where "parse_line_location to_int loc = Inr n" ..
      then show ?thesis using True Cons.IH [of "insert n acc"] by (simp add: located_lines_Cons)
    qed
  qed
qed


lemma window_chunk_bounds:
  assumes "0 \<le> r" and "in_range lines L"
  shows "line_number (window_chunk lines r L) = max 1 (L - r)"
    and "chunk_end (window_chunk lines r L) = min (int (length lines)) (L + r) + 1"
proof -
  let ?s = "max 1 (L - r)" and ?e = "min (int (length lines)) (L + r)"
  show "line_number (window_chunk lines r L) = ?s"
    by (simp add: window_chunk_def Let_def)
  have "0 \<le> ?s - 1" "?s - 1 \<le> ?e" "?e \<le> int (length lines)"
    using assms unfolding in_range_def by linarith+
  then have "length (py_slice lines (?s - 1) ?e) = nat (?e - (?s - 1))"
    by (rule py_slice_length)
  moreover have "?s - 1 \<le> ?e" using assms unfolding in_range_def by linarith
  ultimately show "chunk_end (window_chunk lines r L) = ?e + 1"
    by (simp add: window_chunk_def chunk_end_def Let_def)
qed

lemma window_chunk_window_of:
  assumes "0 \<le> r" and "in_range lines L"
  shows "window_of lines (window_chunk lines r L)"
proof -
  have "content (window_chunk lines r L) =
          py_slice lines (max 1 (L - r) - 1) (min (int (length lines)) (L + r))"
    by (simp add: window_chunk_def Let_def)
  then show ?thesis
    using assms window_chunk_bounds [OF assms]
    unfolding window_of_def in_range_def by simp
qed

lemma window_chunk_covers:
  assumes "0 \<le> r" and "in_range lines L"
  shows "covers (window_chunk lines r L) L"
  using assms window_chunk_bounds [OF assms]
  unfolding covers_def in_range_def by simp

lemma window_chunk_ordered:
  assumes "0 \<le> r" and "in_range lines L" and "in_range lines M" and "L \<le> M"
  shows "ordered (window_chunk lines r L) (window_chunk lines r M)"
  using assms window_chunk_bounds [OF assms(1,2)] window_chunk_bounds [OF assms(1,3)]
  unfolding ordered_def by simp linarith

lemma initial_chunks_set:
  assumes "finite S"
  shows "set (initial_chunks lines r S) = window_chunk lines r ` {L \<in> S. in_range lines L}"
  using assms by (auto simp: initial_chunks_def in_range_def)

lemma initial_chunks_ordered:
  assumes "0 \<le> r"
  shows "sorted_wrt ordered (initial_chunks lines r S)"
proof -
  let ?ls = "filter (\<lambda>n. \<not> (n < 1 \<or> n > int (length lines))) (sorted_list_of_set S)"
  have "sorted_wrt (\<le>) ?ls"
    by (rule sorted_wrt_filter) simp
  moreover have "\<forall>n \<in> set ?ls. in_range lines n"
    by (auto simp: in_range_def)
  ultimately have "sorted_wrt (\<lambda>L M. ordered (window_chunk lines r L) (window_chunk lines r M)) ?ls"
    using window_chunk_ordered [OF assms]
    by (metis (no_types, lifting) sorted_wrt_mono_rel)
  then show ?thesis by (simp add: initial_chunks_def sorted_wrt_map)
qed

lemma merged_chunk:
  assumes "window_of lines cur" and "window_of lines nxt" and "ordered cur nxt"
  defines "m \<equiv> cur\<lparr>content := py_slice lines (line_number cur - 1) (chunk_end nxt - 1)\<rparr>"
  shows "line_number m = line_number cur" and "chunk_end m = chunk_end nxt"
    and "window_of lines m"
proof -
  show s: "line_number m = line_number cur" by (simp add: m_def)
  have "0 \<le> line_number cur - 1" "line_number cur - 1 \<le> chunk_end nxt - 1"
    "chunk_end nxt - 1 \<le> int (length lines)"
    using assms(1-3) unfolding window_of_def ordered_def by linarith+
  then have "length (py_slice lines (line_number cur - 1) (chunk_end nxt - 1)) =
               nat ((chunk_end nxt - 1) - (line_number cur - 1))"
    by (rule py_slice_length)
  moreover have "line_number cur \<le> chunk_end nxt"
    using assms(1-3) unfolding window_of_def ordered_def by linarith
  ultimately show e: "chunk_end m = chunk_end nxt"
    by (simp add: m_def chunk_end_def)
  have "content m = py_slice lines (line_number m - 1) (chunk_end m - 1)"
    unfolding e s by (simp add: m_def)
  then show "window_of lines m"
    using assms(1-3) unfolding window_of_def ordered_def e s by simp
qed

lemma combine_loop_invariant:
  assumes "window_of lines cur" and "\<forall>c \<in> set rest. window_of lines c"
    and "sorted_wrt ordered (cur # rest)"
  shows "(\<forall>c \<in> set (combine_loop lines cur rest []).
            window_of lines c \<and> line_number cur \<le> line_number c) \<and>
         (\<forall>L. (\<exists>c \<in> set (combine_loop lines cur rest []). covers c L) \<longleftrightarrow>
                (\<exists>c \<in> set (cur # rest). covers c L))"
  using assms
proof (induction rest arbitrary: cur)
  case Nil
  then show ?case by (simp add: combine_loop_Nil)
next
  case (Cons nxt rest)
  have wn: "window_of lines nxt" and wr: "\<forall>c \<in> set rest. window_of lines c"
    using Cons.prems(2) by simp_all
  have on: "ordered cur nxt" and orr: "\<forall>c \<in> set rest. ordered cur c"
    and sn: "sorted_wrt ordered (nxt # rest)"
    using Cons.prems(3) by simp_all
  show ?case
  proof (cases "line_number nxt \<le> chunk_end cur")
    case True
    let ?m = "cur\<lparr>content := py_slice lines (line_number cur - 1) (chunk_end nxt - 1)\<rparr>"
    note m = merged_chunk [OF Cons.prems(1) wn on]
    have "\<forall>c \<in> set rest. ordered ?m c"
      using sn orr m(1,2) unfolding ordered_def by simp
    then have sm: "sorted_wrt ordered (?m # rest)" using sn by simp
    have cov: "covers ?m L \<longleftrightarrow> covers cur L \<or> covers nxt L" for L
      using True on m(1,2) unfolding covers_def ordered_def by auto
    from Cons.IH [OF m(3) wr sm] show ?thesis
      using True m(1) cov by (simp add: combine_loop_merge)
  next
    case False
    from Cons.IH [OF wn wr sn] show ?thesis
      using False Cons.prems(1) on unfolding ordered_def
      by (auto simp: combine_loop_keep)
  qed
qed

lemma combine_loop_sorted_apart:
  assumes "window_of lines cur" and "\<forall>c \<in> set rest. window_of lines c"
    and "sorted_wrt ordered (cur # rest)"
  shows "sorted_wrt apart (combine_loop lines cur rest [])"
  using assms
proof (induction rest arbitrary: cur)
  case Nil
  then show ?case by (simp add: combine_loop_Nil)
next
  case (Cons nxt rest)
  have wn: "window_of lines nxt" and wr: "\<forall>c \<in> set rest. window_of lines c"
    using Cons.prems(2) by simp_all
  have on: "ordered cur nxt" and orr: "\<forall>c \<in> set rest. ordered cur c"
    and sn: "sorted_wrt ordered (nxt # rest)"
    using Cons.prems(3) by simp_all
  show ?case
  proof (cases "line_number nxt \<le> chunk_end cur")
    case True
    let ?m = "cur\<lparr>content := py_slice lines (line_number cur - 1) (chunk_end nxt - 1)\<rparr>"
    note m = merged_chunk [OF Cons.prems(1) wn on]
    have "\<forall>c \<in> set rest. ordered ?m c"
      using sn orr m(1,2) unfolding ordered_def by simp
    then have sm: "sorted_wrt ordered (?m # rest)" using sn by simp
    from Cons.IH [OF m(3) wr sm] show ?thesis
      using True by (simp add: combine_loop_merge)
  next
    case False
    have "\<forall>c \<in> set (combine_loop lines nxt rest []). line_number nxt \<le> line_number c"
      using combine_loop_invariant [OF wn wr sn] by blast
    then have "\<forall>c \<in> set (combine_loop lines nxt rest []). apart cur c"
      using False unfolding apart_def by force
    then show ?thesis
      using False Cons.IH [OF wn wr sn] by (simp add: combine_loop_keep)
  qed
qed

lemma covered_at_most_once:
  assumes "sorted_wrt apart cs"
  shows "length (filter (\<lambda>c. covers c L) cs) \<le> 1"
  using assms
proof (induction cs)
  case Nil
  show ?case by simp
next
  case (Cons c cs)
  show ?case
  proof (cases "covers c L")
    case True
    have "\<not> covers d L" if "d \<in> set cs" for d
      using Cons.prems True that unfolding covers_def apart_def by force
    then have "filter (\<lambda>c. covers c L) cs = []" by (simp add: filter_empty_conv)
    then show ?thesis using True by simp
  next
    case False
    then show ?thesis using Cons by simp
  qed
qed

lemma covered_exactly_once:
  assumes "sorted_wrt apart cs" and "\<exists>c \<in> set cs. covers c L"
  shows "length (filter (\<lambda>c. covers c L) cs) = 1"
proof -
  have "filter (\<lambda>c. covers c L) cs \<noteq> []"
    using assms(2) by (simp add: filter_empty_conv)
  then have "0 < length (filter (\<lambda>c. covers c L) cs)" by simp
  with covered_at_most_once [OF assms(1), of L] show ?thesis by linarith
qed


lemma combine_initial_chunks:
  assumes "0 \<le> r" and "finite S"
  shows "sorted_wrt apart (combine_chunks lines (initial_chunks lines r S))"
    and "\<forall>c \<in> set (combine_chunks lines (initial_chunks lines r S)). window_of lines c"
    and "(\<exists>c \<in> set (combine_chunks lines (initial_chunks lines r S)). covers c L) \<longleftrightarrow>
         (\<exists>c \<in> set (initial_chunks lines r S). covers c L)"
proof -
  have w: "\<forall>c \<in> set (initial_chunks lines r S). window_of lines c"
    using window_chunk_window_of [OF assms(1)] by (auto simp: initial_chunks_set [OF assms(2)])
  have o: "sorted_wrt ordered (initial_chunks lines r S)"
    by (rule initial_chunks_ordered [OF assms(1)])
  show "sorted_wrt apart (combine_chunks lines (initial_chunks lines r S))"
  proof (cases "initial_chunks lines r S")
    case Nil
    then show ?thesis by (simp add: combine_chunks_def)
  next
    case (Cons c cs)
    then show ?thesis
      using w o combine_loop_sorted_apart [of lines c cs] by (simp add: combine_chunks_def)
  qed
  show "\<forall>c \<in> set (combine_chunks lines (initial_chunks lines r S)). window_of lines c"
  proof (cases "initial_chunks lines r S")
    case Nil
    then show ?thesis by (simp add: combine_chunks_def)
  next
    case (Cons c cs)
    then show ?thesis
      using w o combine_loop_invariant [of lines c cs] by (simp add: combine_chunks_def)
  qed
  show "(\<exists>c \<in> set (combine_chunks lines (initial_chunks lines r S)). covers c L) \<longleftrightarrow>
        (\<exists>c \<in> set (initial_chunks lines r S). covers c L)"
  proof (cases "initial_chunks lines r S")
    case Nil
    then show ?thesis by (simp add: combine_chunks_def)
  next
    case (Cons c cs)
    have "window_of lines c" "\<forall>d \<in> set cs. window_of lines d" "sorted_wrt ordered (c # cs)"
      using w o Cons by simp_all
    from combine_loop_invariant [OF this] show ?thesis
      using Cons by (simp add: combine_chunks_def)
  qed
qed

lemma window_of_in_range:
  assumes "window_of lines c" and "covers c L"
  shows "in_range lines L"
  using assms unfolding window_of_def covers_def in_range_def by linarith

lemma apart_disjoint:
  assumes "apart a b"
  shows "line_number a < line_number b \<and> (\<forall>L. \<not> (covers a L \<and> covers b L))"
  using assms unfolding apart_def covers_def chunk_end_def by auto

lemma create_context_chunks_result:
  "create_context_chunks to_int msg locations fpath fcontent r =
     Inr \<lparr>message = msg,
          chunks = combine_chunks (py_split NL fcontent)
                     (initial_chunks (py_split NL fcontent) r (located_lines to_int locations)),
          file_path = fpath\<rparr>"
proof -
  have e: "extract_line_numbers to_int locations {} = Inr (located_lines to_int locations)"
    using extract_line_numbers_eq [of to_int locations "{}"] by simp
  show ?thesis
  proof (cases "located_lines to_int locations = {}")
    case True
    then have "initial_chunks (py_split NL fcontent) r (located_lines to_int locations) = []"
      by (simp add: initial_chunks_def)
    then show ?thesis using True e by (simp add: create_context_chunks_def combine_chunks_def)
  next
    case False
    then show ?thesis using e by (simp add: create_context_chunks_def Let_def)
  qed
qed

lemma sorted_list_of_set_in_range:
  assumes "finite S"
  shows "sorted_list_of_set {L \<in> S. in_range lines L} =
           filter (in_range lines) (sorted_list_of_set S)"
proof (rule sorted_distinct_set_unique)
  show "sorted (sorted_list_of_set {L \<in> S. in_range lines L})" by simp
  show "distinct (sorted_list_of_set {L \<in> S. in_range lines L})" by simp
  show "sorted (filter (in_range lines) (sorted_list_of_set S))"
    by (rule sorted_wrt_filter) simp
  show "distinct (filter (in_range lines) (sorted_list_of_set S))" by simp
  show "set (sorted_list_of_set {L \<in> S. in_range lines L}) =
        set (filter (in_range lines) (sorted_list_of_set S))"
    using assms by auto
qed

lemma initial_chunks_in_range_only:
  assumes "finite S"
  shows "initial_chunks lines r {L \<in> S. in_range lines L} = initial_chunks lines r S"
proof -
  have eq: "(\<lambda>n. \<not> (n < 1 \<or> n > int (length lines))) = in_range lines"
    by (auto simp: in_range_def)
  show ?thesis
    unfolding initial_chunks_def eq sorted_list_of_set_in_range [OF assms] by simp
qed

lemma create_context_chunks_in_range_only:
  "create_context_chunks to_int msg locations fpath fcontent r =
     Inr \<lparr>message = msg,
          chunks = combine_chunks (py_split NL fcontent)
                     (initial_chunks (py_split NL fcontent) r
                        {L \<in> located_lines to_int locations. in_range (py_split NL fcontent) L}),
          file_path = fpath\<rparr>"
  by (simp add: create_context_chunks_result initial_chunks_in_range_only finite_located_lines)

text \<open>
  C1. For every file content and every list of location strings (and a context radius
  \<open>context_lines \<ge> 0\<close>), \<open>create_context_chunks\<close> returns without an error, and
  \<^item> every location \<open>line: L\<close> whose number is in range (\<open>1 \<le> L \<le> total lines\<close>) is covered
    by exactly one chunk of the output;
  \<^item> the output chunks are strictly ascending by start line and pairwise non-overlapping;
  \<^item> no chunk covers a line number outside \<open>1..total lines\<close>: an out-of-range location
    contributes nothing (by \<open>create_context_chunks_in_range_only\<close> the result is the one
    built from the in-range line numbers alone).
  The integer parser \<open>to_int\<close> is arbitrary, so the result does not depend on which strings
  Python's \<^verbatim>\<open>int\<close> accepts.
\<close>

theorem create_context_chunks_coverage:
  assumes "0 \<le> context_lines"
  shows "\<exists>rc. create_context_chunks to_int msg locations fpath fcontent context_lines = Inr rc \<and>
    (\<forall>loc \<in> set locations. \<forall>L.
        py_startswith loc ''line:'' \<and> parse_line_location to_int loc = Inr L \<and>
        in_range (py_split NL fcontent) L \<longrightarrow>
        length (filter (\<lambda>c. covers c L) (chunks rc)) = 1) \<and>
    sorted_wrt (\<lambda>a b. line_number a < line_number b \<and> (\<forall>L. \<not> (covers a L \<and> covers b L)))
      (chunks rc) \<and>
    (\<forall>c \<in> set (chunks rc). \<forall>L. covers c L \<longrightarrow> in_range (py_split NL fcontent) L)"
proof -
  let ?lines = "py_split NL fcontent"
  let ?S = "located_lines to_int locations"
  let ?out = "combine_chunks ?lines (initial_chunks ?lines context_lines ?S)"
  let ?rc = "\<lparr>message = msg, chunks = ?out, file_path = fpath\<rparr>"
  have fin: "finite ?S" by (rule finite_located_lines)
  note ci = combine_initial_chunks [OF assms fin, of ?lines]
  have res: "create_context_chunks to_int msg locations fpath fcontent context_lines = Inr ?rc"
    by (rule create_context_chunks_result)
  have once: "length (filter (\<lambda>c. covers c L) ?out) = 1"
    if "loc \<in> set locations" and "py_startswith loc ''line:''"
      and "parse_line_location to_int loc = Inr L" and "in_range ?lines L" for loc L
  proof -
    have "L \<in> ?S" using that(1-3) unfolding located_lines_def by blast
    then have "window_chunk ?lines context_lines L \<in> set (initial_chunks ?lines context_lines ?S)"
      using that(4) by (simp add: initial_chunks_set [OF fin])
    then have "\<exists>c \<in> set (initial_chunks ?lines context_lines ?S). covers c L"
      using window_chunk_covers [OF assms that(4)] by blast
    then have "\<exists>c \<in> set ?out. covers c L" using ci(3) by simp
    with ci(1) show ?thesis by (rule covered_exactly_once)
  qed
  have sorted: "sorted_wrt (\<lambda>a b. line_number a < line_number b \<and>
                   (\<forall>L. \<not> (covers a L \<and> covers b L))) ?out"
    using ci(1) apart_disjoint by (rule sorted_wrt_mono_rel [rotated]) 
  have inside: "\<forall>c \<in> set ?out. \<forall>L. covers c L \<longrightarrow> in_range ?lines L"
    using ci(2) window_of_in_range by blast
  show ?thesis
    using res once sorted inside by (intro exI [of _ ?rc]) auto
qed

theorem create_context_chunks_coverage_witness:
  "0 \<le> (1::int) \<and>
   ''line: 2'' \<in> set example_locations \<and> py_startswith ''line: 2'' ''line:'' \<and>
   parse_line_location py_int ''line: 2'' = Inr 2 \<and> in_range (py_split NL example_file) 2 \<and>
   (\<exists>rc. create_context_chunks py_int ''m'' example_locations ''f.py'' example_file 1 = Inr rc \<and>
      length (filter (\<lambda>c. covers c 2) (chunks rc)) = 1 \<and>
      sorted_wrt (\<lambda>a b. line_number a < line_number b \<and> (\<forall>L. \<not> (covers a L \<and> covers b L)))
        (chunks rc) \<and>
      (\<forall>c \<in> set (chunks rc). \<forall>L. covers c L \<longrightarrow> in_range (py_split NL example_file) L))"
proof -
  have h: "0 \<le> (1::int)" by simp
  have f: "''line: 2'' \<in> set example_locations \<and> py_startswith ''line: 2'' ''line:'' \<and>
     parse_line_location py_int ''line: 2'' = Inr 2 \<and> in_range (py_split NL example_file) 2"
    by code_simp
  from create_context_chunks_coverage [OF h, of py_int "''m''" example_locations "''f.py''"
      example_file]
  obtain rc where
    "create_context_chunks py_int ''m'' example_locations ''f.py'' example_file 1 = Inr rc"
    "\<forall>loc \<in> set example_locations. \<forall>L.
        py_startswith loc ''line:'' \<and> parse_line_location py_int loc = Inr L \<and>
        in_range (py_split NL example_file) L \<longrightarrow>
        length (filter (\<lambda>c. covers c L) (chunks rc)) = 1"
    "sorted_wrt (\<lambda>a b. line_number a < line_number b \<and> (\<forall>L. \<not> (covers a L \<and> covers b L)))
      (chunks rc)"
    "\<forall>c \<in> set (chunks rc). \<forall>L. covers c L \<longrightarrow> in_range (py_split NL example_file) L"
    by blast
  with h f show ?thesis by blast
qed

text \<open>
  C8. The combine step is idempotent: combining an already combined chunk list again (over the
  same file lines) returns it unchanged, because consecutive output chunks are \<open>apart\<close>:
  the next chunk starts after the line that follows the previous chunk's last line, so at
  least one line is omitted between them. This holds for every chunk list, hence for the
  output of \<open>create_context_chunks\<close> at every context radius.
\<close>

theorem combine_chunks_idempotent:
  "combine_chunks lines (combine_chunks lines cs) = combine_chunks lines cs \<and>
   successively apart (combine_chunks lines cs) \<and>
   (\<forall>rc. create_context_chunks to_int msg locations fpath fcontent context_lines = Inr rc \<longrightarrow>
      combine_chunks (py_split NL fcontent) (chunks rc) = chunks rc \<and>
      successively apart (chunks rc))"
proof (intro conjI allI impI)
  show "combine_chunks lines (combine_chunks lines cs) = combine_chunks lines cs"
    by (rule combine_chunks_idem)
  show "successively apart (combine_chunks lines cs)"
    by (rule combine_chunks_successively)
next
  fix rc
  assume "create_context_chunks to_int msg locations fpath fcontent context_lines = Inr rc"
  then have c: "chunks rc = combine_chunks (py_split NL fcontent)
       (initial_chunks (py_split NL fcontent) context_lines (located_lines to_int locations))"
    by (auto simp: create_context_chunks_result)
  show "combine_chunks (py_split NL fcontent) (chunks rc) = chunks rc"
    unfolding c by (rule combine_chunks_idem)
  show "successively apart (chunks rc)"
    unfolding c by (rule combine_chunks_successively)
qed

theorem combine_chunks_idempotent_witness:
  "create_context_chunks py_int ''m'' example_locations ''f.py'' example_file 1 =
     Inr \<lparr>message = ''m'',
          chunks = [\<lparr>line_number = 1, content = [''a'', ''b'', ''c'', ''d'']\<rparr>,
                    \<lparr>line_number = 8, content = [''h'', ''i'', ''j'']\<rparr>],
          file_path = ''f.py''\<rparr> \<and>
   combine_chunks (py_split NL example_file)
     [\<lparr>line_number = 1, content = [''a'', ''b'', ''c'', ''d'']\<rparr>,
      \<lparr>line_number = 8, content = [''h'', ''i'', ''j'']\<rparr>] =
     [\<lparr>line_number = 1, content = [''a'', ''b'', ''c'', ''d'']\<rparr>,
      \<lparr>line_number = 8, content = [''h'', ''i'', ''j'']\<rparr>] \<and>
   apart \<lparr>line_number = 1, content = [''a'', ''b'', ''c'', ''d'']\<rparr>
     \<lparr>line_number = 8, content = [''h'', ''i'', ''j'']\<rparr>"
proof -
  have v: "create_context_chunks py_int ''m'' example_locations ''f.py'' example_file 1 =
     Inr \<lparr>message = ''m'',
          chunks = [\<lparr>line_number = 1, content = [''a'', ''b'', ''c'', ''d'']\<rparr>,
                    \<lparr>line_number = 8, content = [''h'', ''i'', ''j'']\<rparr>],
          file_path = ''f.py''\<rparr>"
    by code_simp
  from combine_chunks_idempotent [of "py_split NL example_file" "[]" py_int "''m''"
      example_locations "''f.py''" example_file 1] v
  show ?thesis by simp
qed

section \<open>Patch derivation\<close>

lemma concat_map_if:
  "concat (map (\<lambda>i. if P i then [f i] else []) xs) = map f (filter P xs)"
  by (induction xs) simp_all

lemma file_edits_eq:
  "file_edits fname old_content new_content =
     map (edit_at fname (py_splitlines old_content) (py_splitlines new_content))
       (filter (differs_at (py_splitlines old_content) (py_splitlines new_content))
          [0..<max (length (py_splitlines old_content)) (length (py_splitlines new_content))])"
  unfolding file_edits_def Let_def edit_at_def differs_at_def
  by (rule concat_map_if)

lemma file_edits_same: "file_edits fname content' content' = []"
  by (simp add: file_edits_eq differs_at_def)

lemma filter_upt_single:
  assumes "i < m" and "P i" and "\<forall>j. j \<noteq> i \<longrightarrow> \<not> P j"
  shows "filter P [0..<m] = [i]"
proof -
  have "[0..<i + (m - i)] = [0..<i] @ [i..<i + (m - i)]"
    by (rule upt_add_eq_append) simp
  then have "[0..<m] = [0..<i] @ i # [Suc i..<m]"
    using assms(1) by (simp add: upt_conv_Cons)
  moreover have "filter P [0..<i] = []" and "filter P [Suc i..<m] = []"
    using assms(3) by (auto simp: filter_empty_conv)
  ultimately show ?thesis using assms(2) by simp
qed

lemma create_patch_same: "create_patch file_names contents contents = \<lparr>edits = []\<rparr>"
proof -
  have "(\<lambda>(fname, old_content, new_content). file_edits fname old_content new_content) t = []"
    if "t \<in> set (zip file_names (zip contents contents))" for t
  proof -
    obtain fname old_content new_content where t: "t = (fname, old_content, new_content)"
      by (cases t) auto
    then have "(old_content, new_content) \<in> set (zip contents contents)"
      using that by (auto dest: set_zip_rightD)
    then have "old_content = new_content" by (simp add: zip_same)
    then show ?thesis using t by (simp add: file_edits_same)
  qed
  then show ?thesis by (simp add: create_patch_def)
qed

text \<open>
  C3. \<open>create_patch\<close> walks the files in step and, per file, the line indices
  \<open>0 .. max(len(old_lines), len(new_lines)) - 1\<close>, reading a line past the end of either
  file as the empty string (\<open>line_or_empty\<close>); its edits are, file after file and in
  ascending index order, exactly one \<open>Edit\<close> for each index at which the two lines differ,
  carrying the file name, the 0-based index, the old line and the new line. In particular
  equal contents give no edit, and two contents whose lines differ at index \<open>i\<close> only give
  the single edit with \<open>edit_line_number = i\<close>.
\<close>

theorem create_patch_spec:
  "edits (create_patch file_names old_contents new_contents) =
     concat (map (\<lambda>(fname, old_content, new_content).
         map (edit_at fname (py_splitlines old_content) (py_splitlines new_content))
           (filter (differs_at (py_splitlines old_content) (py_splitlines new_content))
              [0..<max (length (py_splitlines old_content)) (length (py_splitlines new_content))]))
       (zip file_names (zip old_contents new_contents))) \<and>
   create_patch file_names contents contents = \<lparr>edits = []\<rparr> \<and>
   (i < max (length (py_splitlines old_content)) (length (py_splitlines new_content)) \<and>
    differs_at (py_splitlines old_content) (py_splitlines new_content) i \<and>
    (\<forall>j. j \<noteq> i \<longrightarrow> \<not> differs_at (py_splitlines old_content) (py_splitlines new_content) j) \<longrightarrow>
    create_patch [fname] [old_content] [new_content] =
      \<lparr>edits = [\<lparr>file_name = fname, edit_line_number = int i,
                 line_content = line_or_empty (py_splitlines old_content) i,
                 new_line_content = line_or_empty (py_splitlines new_content) i\<rparr>]\<rparr>)"
proof (intro conjI impI)
  show "edits (create_patch file_names old_contents new_contents) =
     concat (map (\<lambda>(fname, old_content, new_content).
         map (edit_at fname (py_splitlines old_content) (py_splitlines new_content))
           (filter (differs_at (py_splitlines old_content) (py_splitlines new_content))
              [0..<max (length (py_splitlines old_content)) (length (py_splitlines new_content))]))
       (zip file_names (zip old_contents new_contents)))"
    by (simp add: create_patch_def file_edits_eq)
  show "create_patch file_names contents contents = \<lparr>edits = []\<rparr>"
    by (rule create_patch_same)
next
  let ?o = "py_splitlines old_content" and ?n = "py_splitlines new_content"
  assume h: "i < max (length ?o) (length ?n) \<and> differs_at ?o ?n i \<and>
    (\<forall>j. j \<noteq> i \<longrightarrow> \<not> differs_at ?o ?n j)"
  then have "filter (differs_at ?o ?n) [0..<max (length ?o) (length ?n)] = [i]"
    by (intro filter_upt_single) simp_all
  then show "create_patch [fname] [old_content] [new_content] =
      \<lparr>edits = [\<lparr>file_name = fname, edit_line_number = int i,
                 line_content = line_or_empty ?o i,
                 new_line_content = line_or_empty ?n i\<rparr>]\<rparr>"
    by (simp add: create_patch_def file_edits_eq edit_at_def)
qed

theorem create_patch_spec_witness:
  "(1::nat) < max (length (py_splitlines example_old)) (length (py_splitlines example_new)) \<and>
   differs_at (py_splitlines example_old) (py_splitlines example_new) 1 \<and>
   {j. differs_at (py_splitlines example_old) (py_splitlines example_new) j} = {1} \<and>
   create_patch [''a.py''] [example_old] [example_new] =
     \<lparr>edits = [\<lparr>file_name = ''a.py'', edit_line_number = 1,
                line_content = ''y = 2'', new_line_content = ''y = 5''\<rparr>]\<rparr>"
proof -
  have o: "py_splitlines example_old = [''x = 1'', ''y = 2'', ''z = 3'']" by code_simp
  have n: "py_splitlines example_new = [''x = 1'', ''y = 5'', ''z = 3'']" by code_simp
  have a: "(1::nat) < max (length (py_splitlines example_old)) (length (py_splitlines example_new))"
    unfolding o n by simp
  have b: "differs_at (py_splitlines example_old) (py_splitlines example_new) 1"
    unfolding o n by (simp add: differs_at_def line_or_empty_def)
  have c: "\<forall>j. j \<noteq> 1 \<longrightarrow> \<not> differs_at (py_splitlines example_old) (py_splitlines example_new) j"
    unfolding o n by (auto simp: differs_at_def line_or_empty_def nth_Cons split: nat.splits)
  from create_patch_spec [of "[]" "[]" "[]" "[]" 1 example_old example_new "''a.py''"] a b c
  have "create_patch [''a.py''] [example_old] [example_new] =
      \<lparr>edits = [\<lparr>file_name = ''a.py'', edit_line_number = int 1,
                 line_content = line_or_empty (py_splitlines example_old) 1,
                 new_line_content = line_or_empty (py_splitlines example_new) 1\<rparr>]\<rparr>"
    by blast
  then have "create_patch [''a.py''] [example_old] [example_new] =
     \<lparr>edits = [\<lparr>file_name = ''a.py'', edit_line_number = 1,
                line_content = ''y = 2'', new_line_content = ''y = 5''\<rparr>]\<rparr>"
    unfolding o n by (simp add: line_or_empty_def)
  moreover have "{j. differs_at (py_splitlines example_old) (py_splitlines example_new) j} = {1}"
    using b c by auto
  ultimately show ?thesis using a b by blast
qed

section \<open>Sandboxed execution\<close>

subsection \<open>Container runner\<close>

lemma run_script_container_events:
  "\<exists>rc to. snd (run_script_container api script timeout c events) =
      events @ [Wrote ''/tmp/repro/reproduce_script.py'', RanTimed script_command rc to] \<and>
     (\<forall>out. fst (run_script_container api script timeout c events) = Inr out \<longrightarrow>
        timed_out out = to \<and> exit_code out = (if to then 1 else rc))"
  by (auto simp: run_script_container_def Let_def split: prod.splits option.splits)

lemma execute_script_container_cases:
  fixes api :: "'c container_api"
  shows "\<exists>rc1 rc2 rc3 to.
     (execute_script_container api script (Some p) timeout flag =
        (if flag then Inr could_not_apply else Inl ValueError,
         [Wrote ''/tmp/patch.diff'', Ran git_apply_cmd rc1, Ran fuzzy_patch_cmd rc2]) \<and>
      rc1 \<noteq> 0 \<and> rc2 \<noteq> 0) \<or>
     (snd (execute_script_container api script (Some p) timeout flag) =
        [Wrote ''/tmp/patch.diff'', Ran git_apply_cmd rc1, Ran fuzzy_patch_cmd 0,
         Wrote ''/tmp/repro/reproduce_script.py'', RanTimed script_command rc3 to] \<and>
      rc1 \<noteq> 0) \<or>
     (snd (execute_script_container api script (Some p) timeout flag) =
        [Wrote ''/tmp/patch.diff'', Ran git_apply_cmd 0,
         Wrote ''/tmp/repro/reproduce_script.py'', RanTimed script_command rc3 to])"
proof -
  let ?c1 = "c_write_file api (normalize_patch p) ''/tmp/patch.diff'' (c_start api)"
  obtain rc1 o1 c2 where a: "c_exec_run api git_apply_cmd ''/testbed'' ?c1 = ((rc1, o1), c2)"
    by (metis prod.exhaust)
  obtain rc2 o2 c3 where f: "c_exec_run api fuzzy_patch_cmd ''/testbed'' c2 = ((rc2, o2), c3)"
    by (metis prod.exhaust)
  show ?thesis
  proof (cases "rc1 = 0")
    case True
    obtain rc to where "snd (run_script_container api script timeout c2
          [Wrote ''/tmp/patch.diff'', Ran git_apply_cmd 0]) =
        [Wrote ''/tmp/patch.diff'', Ran git_apply_cmd 0] @
        [Wrote ''/tmp/repro/reproduce_script.py'', RanTimed script_command rc to]"
      using run_script_container_events [of api script timeout c2
          "[Wrote ''/tmp/patch.diff'', Ran git_apply_cmd 0]"] by blast
    then show ?thesis using True a
      by (auto simp: execute_script_container_def Let_def)
  next
    case False
    show ?thesis
    proof (cases "rc2 = 0")
      case True
      obtain rc to where "snd (run_script_container api script timeout c3
            [Wrote ''/tmp/patch.diff'', Ran git_apply_cmd rc1, Ran fuzzy_patch_cmd 0]) =
          [Wrote ''/tmp/patch.diff'', Ran git_apply_cmd rc1, Ran fuzzy_patch_cmd 0] @
          [Wrote ''/tmp/repro/reproduce_script.py'', RanTimed script_command rc to]"
        using run_script_container_events [of api script timeout c3
            "[Wrote ''/tmp/patch.diff'', Ran git_apply_cmd rc1, Ran fuzzy_patch_cmd 0]"] by blast
      then show ?thesis using True False a f
        by (auto simp: execute_script_container_def Let_def)
    next
      case rc2: False
      then show ?thesis using False a f
        by (auto simp: execute_script_container_def Let_def)
    qed
  qed
qed


subsection \<open>Local runner\<close>

lemma subprocess_run_log:
  "log (snd (subprocess_run h cmd cwd tmo w)) =
     log w @ [(cwd, cmd, fst (subprocess_run h cmd cwd tmo w))]"
  by (simp add: subprocess_run_def Let_def split: option.splits prod.splits)

lemma subprocess_run_fs:
  "loc \<noteq> cwd \<Longrightarrow> fs (snd (subprocess_run h cmd cwd tmo w)) loc = fs w loc"
  by (simp add: subprocess_run_def Let_def split: option.splits prod.splits)

lemma open_write_log: "log (snd (open_write h dir name text w)) = log w"
  by (simp add: open_write_def split: option.splits sum.splits)

lemma open_write_fs:
  "loc \<noteq> dir \<Longrightarrow> fs (snd (open_write h dir name text w)) loc = fs w loc"
  by (simp add: open_write_def split: option.splits sum.splits)

lemma after_apply_local_skip:
  "after_apply_local h temp_repo_location flag w = (None, w)"
  by (simp add: after_apply_local_def)

lemma apply_raised_local_eq:
  "apply_raised_local h temp_repo_location flag e w =
     (if flag then
        Some (Inr \<lparr>stdout = Some (''Error applying patch: '' @ e), exit_code = 1,
                   timed_out = False\<rparr>)
      else None, w)"
  by (simp add: apply_raised_local_def after_apply_local_skip)

lemma patch_stage_local_log:
  "\<exists>es. log (snd (patch_stage_local h bc t p flag w)) = log w @ es \<and>
        (\<forall>e \<in> set es. fst e = t \<and>
           (fst (snd e) = git_reset_argv bc \<or> fst (snd e) = git_apply_argv t))"
proof -
  obtain r1 w1 where s1: "subprocess_run h (git_reset_argv bc) t None w = (r1, w1)"
    by (metis prod.exhaust)
  have l1: "log w1 = log w @ [(t, git_reset_argv bc, r1)]"
    using subprocess_run_log [of h "git_reset_argv bc" t None w] s1 by simp
  obtain e2 w2 where s2: "open_write h t ''patch.diff'' (normalize_patch p) w1 = (e2, w2)"
    by (metis prod.exhaust)
  have l2: "log w2 = log w1"
    using open_write_log [of h t "''patch.diff''" "normalize_patch p" w1] s2 by simp
  obtain r3 w3 where s3: "subprocess_run h (git_apply_argv t) t None w2 = (r3, w3)"
    by (metis prod.exhaust)
  have l3: "log w3 = log w2 @ [(t, git_apply_argv t, r3)]"
    using subprocess_run_log [of h "git_apply_argv t" t None w2] s3 by simp
  show ?thesis
    using s1 s2 s3 l1 l2 l3
    by (auto simp: patch_stage_local_def Let_def apply_raised_local_eq after_apply_local_skip
        split: outcome.splits option.splits)
qed

lemma patch_stage_local_fs:
  assumes "loc \<noteq> t"
  shows "fs (snd (patch_stage_local h bc t p flag w)) loc = fs w loc"
proof -
  obtain r1 w1 where s1: "subprocess_run h (git_reset_argv bc) t None w = (r1, w1)"
    by (metis prod.exhaust)
  have f1: "fs w1 loc = fs w loc"
    using subprocess_run_fs [OF assms, of h "git_reset_argv bc" None w] s1 by simp
  obtain e2 w2 where s2: "open_write h t ''patch.diff'' (normalize_patch p) w1 = (e2, w2)"
    by (metis prod.exhaust)
  have f2: "fs w2 loc = fs w1 loc"
    using open_write_fs [OF assms, of h "''patch.diff''" "normalize_patch p" w1] s2 by simp
  obtain r3 w3 where s3: "subprocess_run h (git_apply_argv t) t None w2 = (r3, w3)"
    by (metis prod.exhaust)
  have f3: "fs w3 loc = fs w2 loc"
    using subprocess_run_fs [OF assms, of h "git_apply_argv t" None w2] s3 by simp
  show ?thesis
    using s1 s2 s3 f1 f2 f3
    by (auto simp: patch_stage_local_def Let_def apply_raised_local_eq after_apply_local_skip
        split: outcome.splits option.splits)
qed

lemma patch_stage_local_early:
  assumes "fst (patch_stage_local h bc t p flag w) = Some r"
  shows "flag \<and> (\<exists>e. r = Inr \<lparr>stdout = Some (''Error applying patch: '' @ e), exit_code = 1,
                              timed_out = False\<rparr>)"
  using assms
  by (auto simp: patch_stage_local_def Let_def apply_raised_local_eq after_apply_local_skip
      split: outcome.splits option.splits prod.splits if_splits)

lemma script_stage_local_log:
  "log (snd (script_stage_local h t script tmo w)) = log w \<or>
   (\<exists>r. log (snd (script_stage_local h t script tmo w)) = log w @ [(t, Shell script_command, r)] \<and>
        (\<forall>m. r = Raised TimeoutExpired m \<longrightarrow>
           fst (script_stage_local h t script tmo w) = timed_out_output))"
proof -
  obtain e1 w1 where s1: "open_write h t ''reproduce_script.py'' script w = (e1, w1)"
    by (metis prod.exhaust)
  have l1: "log w1 = log w"
    using open_write_log [of h t "''reproduce_script.py''" script w] s1 by simp
  obtain r w2 where s2: "subprocess_run h (Shell script_command) t (Some tmo) w1 = (r, w2)"
    by (metis prod.exhaust)
  have l2: "log w2 = log w1 @ [(t, Shell script_command, r)]"
    using subprocess_run_log [of h "Shell script_command" t "Some tmo" w1] s2 by simp
  show ?thesis
    using s1 s2 l1 l2
    by (auto simp: script_stage_local_def Let_def timed_out_output_def
        split: outcome.splits option.splits exn_kind.splits sum.splits captured.splits)
qed

lemma script_stage_local_fs:
  assumes "loc \<noteq> t"
  shows "fs (snd (script_stage_local h t script tmo w)) loc = fs w loc"
proof -
  obtain e1 w1 where s1: "open_write h t ''reproduce_script.py'' script w = (e1, w1)"
    by (metis prod.exhaust)
  have f1: "fs w1 loc = fs w loc"
    using open_write_fs [OF assms, of h "''reproduce_script.py''" script w] s1 by simp
  obtain r w2 where s2: "subprocess_run h (Shell script_command) t (Some tmo) w1 = (r, w2)"
    by (metis prod.exhaust)
  have f2: "fs w2 loc = fs w1 loc"
    using subprocess_run_fs [OF assms, of h "Shell script_command" "Some tmo" w1] s2 by simp
  show ?thesis
    using s1 s2 f1 f2
    by (auto simp: script_stage_local_def Let_def
        split: outcome.splits option.splits exn_kind.splits sum.splits captured.splits)
qed


lemma execute_script_missing:
  "fs w repo = None \<Longrightarrow> execute_script h script bc repo patch tmo flag w = (Inl OSError, w)"
  by (simp add: execute_script_def)

lemma execute_script_unfold:
  fixes h :: "'tree host" and w :: "'tree world" and tr bc patch flag script tmo
  assumes "fs w repo = Some tr"
  defines "t \<equiv> temp_dir h @ ''/repo''"
  defines "ps \<equiv> patch_stage_of h bc patch flag (w\<lparr>fs := (fs w)(t \<mapsto> tr)\<rparr>)"
  defines "ss \<equiv> script_stage_local h t script tmo (snd ps)"
  shows "execute_script h script bc repo patch tmo flag w =
           (case fst ps of
              Some r \<Rightarrow> (r, (snd ps)\<lparr>fs := (fs (snd ps))(t := None)\<rparr>)
            | None \<Rightarrow> (Inr (fst ss), (snd ss)\<lparr>fs := (fs (snd ss))(t := None)\<rparr>))"
  using assms(1) unfolding ps_def ss_def t_def patch_stage_of_def execute_script_def Let_def
  by (simp split: option.splits prod.splits)

lemma patch_stage_of_log:
  "\<exists>es. log (snd (patch_stage_of h bc patch flag w0)) = log w0 @ es \<and>
        (\<forall>e \<in> set es. fst e = temp_dir h @ ''/repo'' \<and>
           (fst (snd e) = git_reset_argv bc \<or>
            fst (snd e) = git_apply_argv (temp_dir h @ ''/repo'')))"
proof (cases patch)
  case None
  then show ?thesis by (simp add: patch_stage_of_def)
next
  case (Some p)
  then show ?thesis
    using patch_stage_local_log [of h bc "temp_dir h @ ''/repo''" p flag w0]
    by (simp add: patch_stage_of_def)
qed

lemma patch_stage_of_fs:
  "loc \<noteq> temp_dir h @ ''/repo'' \<Longrightarrow>
     fs (snd (patch_stage_of h bc patch flag w0)) loc = fs w0 loc"
  by (cases patch) (simp_all add: patch_stage_of_def patch_stage_local_fs)

lemma execute_script_frame:
  assumes "loc \<noteq> temp_dir h @ ''/repo''"
  shows "fs (snd (execute_script h script bc repo patch tmo flag w)) loc = fs w loc"
proof (cases "fs w repo")
  case None
  then show ?thesis by (simp add: execute_script_missing)
next
  case (Some tr)
  let ?t = "temp_dir h @ ''/repo''"
  let ?w0 = "w\<lparr>fs := (fs w)(?t \<mapsto> tr)\<rparr>"
  let ?ps = "patch_stage_of h bc patch flag ?w0"
  have p: "fs (snd ?ps) loc = fs w loc"
    using patch_stage_of_fs [OF assms, of bc patch flag ?w0] assms by simp
  have s: "fs (snd (script_stage_local h ?t script tmo (snd ?ps))) loc = fs w loc"
    using script_stage_local_fs [OF assms, of h script tmo "snd ?ps"] p by simp
  show ?thesis
    unfolding execute_script_unfold [OF Some]
    using p s assms by (simp split: option.splits)
qed

lemma execute_script_commands:
  assumes "log w = []"
    and "e \<in> set (log (snd (execute_script h script bc repo patch tmo flag w)))"
  shows "fst e = temp_dir h @ ''/repo'' \<and>
         (fst (snd e) = git_reset_argv bc \<or>
          fst (snd e) = git_apply_argv (temp_dir h @ ''/repo'') \<or>
          fst (snd e) = Shell script_command)"
proof (cases "fs w repo")
  case None
  then show ?thesis using assms by (simp add: execute_script_missing)
next
  case (Some tr)
  let ?t = "temp_dir h @ ''/repo''"
  let ?w0 = "w\<lparr>fs := (fs w)(?t \<mapsto> tr)\<rparr>"
  let ?ps = "patch_stage_of h bc patch flag ?w0"
  let ?ss = "script_stage_local h ?t script tmo (snd ?ps)"
  obtain es where es: "log (snd ?ps) = es"
    and esP: "\<forall>e \<in> set es. fst e = ?t \<and>
         (fst (snd e) = git_reset_argv bc \<or> fst (snd e) = git_apply_argv ?t)"
    using patch_stage_of_log [of h bc patch flag ?w0] assms(1) by auto
  have ss: "log (snd ?ss) = es \<or> (\<exists>r. log (snd ?ss) = es @ [(?t, Shell script_command, r)])"
    using script_stage_local_log [of h ?t script tmo "snd ?ps"] es by auto
  have "e \<in> set es \<or> (\<exists>r. e = (?t, Shell script_command, r))"
    using assms(2) ss es unfolding execute_script_unfold [OF Some]
    by (auto split: option.splits)
  then show ?thesis using esP by auto
qed

lemma execute_script_timed_out:
  assumes "log w = []"
    and "(cwd, Shell script_command, Raised TimeoutExpired m)
           \<in> set (log (snd (execute_script h script bc repo patch tmo flag w)))"
  shows "fst (execute_script h script bc repo patch tmo flag w) = Inr timed_out_output"
proof (cases "fs w repo")
  case None
  then show ?thesis using assms by (simp add: execute_script_missing)
next
  case (Some tr)
  let ?t = "temp_dir h @ ''/repo''"
  let ?w0 = "w\<lparr>fs := (fs w)(?t \<mapsto> tr)\<rparr>"
  let ?ps = "patch_stage_of h bc patch flag ?w0"
  let ?ss = "script_stage_local h ?t script tmo (snd ?ps)"
  let ?x = "(cwd, Shell script_command, Raised TimeoutExpired m)"
  obtain es where es: "log (snd ?ps) = es"
    and esP: "\<forall>e \<in> set es. fst e = ?t \<and>
         (fst (snd e) = git_reset_argv bc \<or> fst (snd e) = git_apply_argv ?t)"
    using patch_stage_of_log [of h bc patch flag ?w0] assms(1) by auto
  have notin: "?x \<notin> set es"
    using esP by (auto simp: git_reset_argv_def git_apply_argv_def)
  show ?thesis
  proof (cases "fst ?ps")
    case (Some r)
    then have "?x \<in> set es"
      using assms(2) es unfolding execute_script_unfold [OF \<open>fs w repo = Some tr\<close>] by simp
    with notin show ?thesis by simp
  next
    case None
    then have in_ss: "?x \<in> set (log (snd ?ss))"
      using assms(2) unfolding execute_script_unfold [OF \<open>fs w repo = Some tr\<close>] by simp
    from script_stage_local_log [of h ?t script tmo "snd ?ps"]
    have "fst ?ss = timed_out_output"
    proof
      assume "log (snd ?ss) = log (snd ?ps)"
      then show ?thesis using in_ss notin es by simp
    next
      assume "\<exists>r. log (snd ?ss) = log (snd ?ps) @ [(?t, Shell script_command, r)] \<and>
        (\<forall>m. r = Raised TimeoutExpired m \<longrightarrow> fst ?ss = timed_out_output)"
      then obtain r where l: "log (snd ?ss) = es @ [(?t, Shell script_command, r)]"
        and to: "\<forall>m. r = Raised TimeoutExpired m \<longrightarrow> fst ?ss = timed_out_output"
        using es by auto
      have "r = Raised TimeoutExpired m" using in_ss notin l by auto
      then show ?thesis using to by simp
    qed
    then show ?thesis
      using None unfolding execute_script_unfold [OF \<open>fs w repo = Some tr\<close>] by simp
  qed
qed


subsection \<open>Fallback patch application\<close>

lemma execute_script_never_falls_back:
  assumes "log w = []"
  shows "(cwd, fuzzy_patch_argv t, r)
           \<notin> set (log (snd (execute_script h script bc repo patch tmo flag w)))"
proof
  assume "(cwd, fuzzy_patch_argv t, r)
            \<in> set (log (snd (execute_script h script bc repo patch tmo flag w)))"
  from execute_script_commands [OF assms this] show False
    by (simp add: fuzzy_patch_argv_def git_reset_argv_def git_apply_argv_def)
qed

lemma execute_script_container_fallback:
  fixes api :: "'c container_api" and script p timeout flag
  defines "events \<equiv> snd (execute_script_container api script (Some p) timeout flag)"
  shows "(\<exists>rc. Ran fuzzy_patch_cmd rc \<in> set events) \<longleftrightarrow>
           (\<exists>rc. rc \<noteq> 0 \<and> Ran git_apply_cmd rc \<in> set events)"
    and "RanTimed script_command rc to \<in> set events \<Longrightarrow>
           Ran git_apply_cmd 0 \<in> set events \<or> Ran fuzzy_patch_cmd 0 \<in> set events"
proof -
  have ne: "git_apply_cmd \<noteq> fuzzy_patch_cmd"
    by (simp add: git_apply_cmd_def fuzzy_patch_cmd_def)
  from execute_script_container_cases [of api script p timeout flag]
  show "(\<exists>rc. Ran fuzzy_patch_cmd rc \<in> set events) \<longleftrightarrow>
           (\<exists>rc. rc \<noteq> 0 \<and> Ran git_apply_cmd rc \<in> set events)"
    unfolding events_def using ne by (elim exE disjE conjE) auto
  from execute_script_container_cases [of api script p timeout flag]
  show "RanTimed script_command rc to \<in> set events \<Longrightarrow>
           Ran git_apply_cmd 0 \<in> set events \<or> Ran fuzzy_patch_cmd 0 \<in> set events"
    unfolding events_def by (elim exE disjE conjE) auto
qed

text \<open>
  C4. The container runner attempts the fuzzy fallback exactly when \<open>git apply\<close> exits
  non-zero and runs the script only after one of the two succeeded
  (\<open>execute_script_container_fallback\<close>). The local runner \<open>execute_script\<close> does not: it sets
  \<open>patch_apply_exit_code = 0\<close> instead of reading the exit code of \<open>git apply\<close>, so its
  fallback branch is never entered (\<open>execute_script_never_falls_back\<close>). On a host where
  \<open>git apply\<close> rejects the patch with exit code 1 and the fuzzy \<open>patch\<close> would have applied
  it, the local runner issues no fallback and runs the script on the unpatched copy (exit
  code 2), where the container runner falls back and runs it on the patched tree (exit code 0).
\<close>

theorem execute_script_skips_fallback:
  "fst (execute_script (example_host 1 False) ''print(1)'' ''abc'' ''/repo'' (Some ''diff'') 600
          True example_world) =
     Inr \<lparr>stdout = Some ''ran'', exit_code = 2, timed_out = False\<rparr> \<and>
   log (snd (execute_script (example_host 1 False) ''print(1)'' ''abc'' ''/repo'' (Some ''diff'')
          600 True example_world)) =
     [(''/tmp/tmpa/repo'', git_reset_argv ''abc'', Exited 0 NotCaptured),
      (''/tmp/tmpa/repo'', git_apply_argv ''/tmp/tmpa/repo'', Exited 1 NotCaptured),
      (''/tmp/tmpa/repo'', Shell script_command, Exited 2 (Bytes ''ran''))] \<and>
   execute_script_container (example_container 1 0 False) ''print(1)'' (Some ''diff'') 600 True =
     (Inr \<lparr>stdout = Some ''ran'', exit_code = 0, timed_out = False\<rparr>,
      [Wrote ''/tmp/patch.diff'', Ran git_apply_cmd 1, Ran fuzzy_patch_cmd 0,
       Wrote ''/tmp/repro/reproduce_script.py'', RanTimed script_command 0 False])"
  by code_simp

subsection \<open>Failure of both patch applications\<close>

text \<open>
  C5, as claimed, fails: with \<open>return_error_as_execution_output = False\<close> (the default) a
  container run in which \<open>git apply\<close> and the fuzzy \<open>patch\<close> both exit 1 raises
  \<open>ValueError\<close> to the caller instead of returning an \<open>ExecutionOutput\<close>.
\<close>

theorem execute_script_container_raises:
  "execute_script_container (example_container 1 1 False) ''print(1)'' (Some ''diff'') 600 False =
     (Inl ValueError,
      [Wrote ''/tmp/patch.diff'', Ran git_apply_cmd 1, Ran fuzzy_patch_cmd 1])"
  by code_simp

text \<open>
  C5, amended. In a container run with a patch supplied in which \<open>git apply\<close> and the fuzzy
  \<open>patch\<close> both exit non-zero, the script is not run, and the run returns
  \<open>ExecutionOutput(stdout = "Could not apply patch to repository", exit_code = 1,
  timed_out = False)\<close> when \<open>return_error_as_execution_output\<close> is true, and raises
  \<open>ValueError\<close> when it is false.
\<close>

theorem apply_failure_surfaced:
  fixes api :: "'c container_api"
  assumes "Ran git_apply_cmd rc1
             \<in> set (snd (execute_script_container api script (Some p) timeout flag))"
    and "rc1 \<noteq> 0"
    and "Ran fuzzy_patch_cmd rc2
             \<in> set (snd (execute_script_container api script (Some p) timeout flag))"
    and "rc2 \<noteq> 0"
  shows "execute_script_container api script (Some p) timeout flag =
           (if flag then Inr could_not_apply else Inl ValueError,
            [Wrote ''/tmp/patch.diff'', Ran git_apply_cmd rc1, Ran fuzzy_patch_cmd rc2])"
proof -
  have ne: "git_apply_cmd \<noteq> fuzzy_patch_cmd"
    by (simp add: git_apply_cmd_def fuzzy_patch_cmd_def)
  from execute_script_container_cases [of api script p timeout flag]
  show ?thesis
    using assms ne by (elim exE disjE conjE) auto
qed

theorem apply_failure_surfaced_witness:
  "Ran git_apply_cmd 1 \<in> set (snd (execute_script_container (example_container 1 1 False)
       ''print(1)'' (Some ''diff'') 600 True)) \<and>
   Ran fuzzy_patch_cmd 1 \<in> set (snd (execute_script_container (example_container 1 1 False)
       ''print(1)'' (Some ''diff'') 600 True)) \<and>
   execute_script_container (example_container 1 1 False) ''print(1)'' (Some ''diff'') 600 True =
     (Inr could_not_apply,
      [Wrote ''/tmp/patch.diff'', Ran git_apply_cmd 1, Ran fuzzy_patch_cmd 1])"
proof -
  have a: "Ran git_apply_cmd 1 \<in> set (snd (execute_script_container (example_container 1 1 False)
       ''print(1)'' (Some ''diff'') 600 True))"
    by code_simp
  have b: "Ran fuzzy_patch_cmd 1 \<in> set (snd (execute_script_container (example_container 1 1 False)
       ''print(1)'' (Some ''diff'') 600 True))"
    by code_simp
  from apply_failure_surfaced [OF a _ b] a b show ?thesis by simp
qed

subsection \<open>Timeout\<close>

text \<open>
  C6. A run whose script exceeds the timeout returns exit code 1 with \<open>timed_out\<close> set. In
  the container runner the timed execution reports \<open>timed_out = True\<close> and every returned
  \<open>ExecutionOutput\<close> then has \<open>exit_code = 1\<close> and \<open>timed_out = True\<close>; in the local
  runner \<open>subprocess.run\<close> raises \<open>TimeoutExpired\<close> for the script command and the run
  returns \<open>ExecutionOutput("Script execution timed out", 1, True)\<close>.
\<close>

theorem timeout_forces_exit_code:
  fixes api :: "'c container_api" and h :: "'tree host"
  shows "(execute_script_container api script patch timeout flag = (Inr out, events) \<and>
          RanTimed script_command rc True \<in> set events \<longrightarrow>
            exit_code out = 1 \<and> timed_out out) \<and>
         (log w = [] \<and>
          (cwd, Shell script_command, Raised TimeoutExpired m)
             \<in> set (log (snd (execute_script h script' bc repo patch' timeout' flag' w))) \<longrightarrow>
            fst (execute_script h script' bc repo patch' timeout' flag' w) =
              Inr \<lparr>stdout = Some ''Script execution timed out'', exit_code = 1,
                   timed_out = True\<rparr>)"
proof (rule conjI; rule impI)
  assume a: "execute_script_container api script patch timeout flag = (Inr out, events) \<and>
          RanTimed script_command rc True \<in> set events"
  have run: "exit_code out = 1 \<and> timed_out out"
    if "run_script_container api script timeout c evs = (Inr out, events)"
      and "\<forall>rc to. RanTimed script_command rc to \<notin> set evs" for c evs
  proof -
    from run_script_container_events [of api script timeout c evs] that(1)
    obtain rc' to where ev: "events = evs @ [Wrote ''/tmp/repro/reproduce_script.py'',
          RanTimed script_command rc' to]"
      and out: "timed_out out = to \<and> exit_code out = (if to then 1 else rc')"
      by auto
    have "to" using a ev that(2) by auto
    then show ?thesis using out by simp
  qed
  show "exit_code out = 1 \<and> timed_out out"
  proof (cases patch)
    case None
    then show ?thesis using a run [of "c_start api" "[]"]
      by (simp add: execute_script_container_def)
  next
    case (Some p)
    then show ?thesis using a
      by (auto simp: execute_script_container_def Let_def could_not_apply_def
          split: prod.splits if_splits intro!: run)
  qed
next
  assume "log w = [] \<and>
          (cwd, Shell script_command, Raised TimeoutExpired m)
             \<in> set (log (snd (execute_script h script' bc repo patch' timeout' flag' w)))"
  then show "fst (execute_script h script' bc repo patch' timeout' flag' w) =
              Inr \<lparr>stdout = Some ''Script execution timed out'', exit_code = 1,
                   timed_out = True\<rparr>"
    using execute_script_timed_out [of w cwd m h script' bc repo patch' timeout' flag']
    by (simp add: timed_out_output_def)
qed



theorem timeout_forces_exit_code_witness:
  "execute_script_container (example_container 0 1 True) ''print(1)'' (Some ''diff'') 600 False =
     (Inr \<lparr>stdout = Some [], exit_code = 1, timed_out = True\<rparr>,
      [Wrote ''/tmp/patch.diff'', Ran git_apply_cmd 0,
       Wrote ''/tmp/repro/reproduce_script.py'', RanTimed script_command 137 True]) \<and>
   log example_world = [] \<and>
   (''/tmp/tmpa/repo'', Shell script_command, Raised TimeoutExpired ''timed out'')
      \<in> set (log (snd (execute_script (example_host 0 True) ''print(1)'' ''abc'' ''/repo''
                          (Some ''diff'') 600 False example_world))) \<and>
   fst (execute_script (example_host 0 True) ''print(1)'' ''abc'' ''/repo'' (Some ''diff'') 600
          False example_world) =
     Inr \<lparr>stdout = Some ''Script execution timed out'', exit_code = 1, timed_out = True\<rparr>"
proof -
  let ?out = "\<lparr>stdout = Some [], exit_code = 1, timed_out = True\<rparr>"
  let ?events = "[Wrote ''/tmp/patch.diff'', Ran git_apply_cmd 0,
       Wrote ''/tmp/repro/reproduce_script.py'', RanTimed script_command 137 True]"
  have c: "execute_script_container (example_container 0 1 True) ''print(1)'' (Some ''diff'') 600
             False = (Inr ?out, ?events)"
    by code_simp
  have e: "RanTimed script_command 137 True \<in> set ?events" by simp
  have l: "log example_world = []" by (simp add: example_world_def)
  have t: "(''/tmp/tmpa/repo'', Shell script_command, Raised TimeoutExpired ''timed out'')
      \<in> set (log (snd (execute_script (example_host 0 True) ''print(1)'' ''abc'' ''/repo''
                          (Some ''diff'') 600 False example_world)))"
    by code_simp
  note inst = timeout_forces_exit_code [where api = "example_container 0 1 True"
      and script = "''print(1)''" and patch = "Some ''diff''" and timeout = 600 and flag = False
      and out = ?out and events = ?events and rc = 137
      and h = "example_host 0 True" and w = example_world and cwd = "''/tmp/tmpa/repo''"
      and m = "''timed out''" and script' = "''print(1)''" and bc = "''abc''"
      and repo = "''/repo''" and patch' = "Some ''diff''" and timeout' = 600 and flag' = False]
  from inst c e l t show ?thesis by blast
qed

subsection \<open>The original tree\<close>

lemma execute_script_keeps_original:
  assumes "repo_location \<noteq> temp_dir h @ ''/repo''"
  shows "fs (snd (execute_script h script bc repo_location patch tmo flag w)) repo_location =
           fs w repo_location"
  using assms by (rule execute_script_frame)

lemma apply_in_place_first:
  assumes "fs w repo = Some t"
    and "run_proc h (Shell (cmd @ '' '' @ patch_path)) None t = (Exited rc out, t')"
  shows "fs (apply_in_place h patch_path repo (cmd # cmds) w) repo = Some t'"
  using assms by (simp add: subprocess_run_def Let_def)

lemma run_swebench_test_local_in_place:
  assumes "patch \<noteq> []" and "fs w repo = Some t"
    and "run_proc h (Shell (''git apply --verbose '' @ patch_temp_dir h @ ''/patch.diff'')) None t =
           (Exited rc out, t')"
    and "repo \<noteq> temp_dir h @ ''/repo''"
  shows "fs (snd (run_swebench_test_local h eval_script report bc repo patch w)) repo = Some t'"
proof -
  let ?w1 = "apply_in_place h (patch_temp_dir h @ ''/patch.diff'') repo GIT_APPLY_CMDS w"
  have "run_proc h (Shell (''git apply --verbose'' @ '' '' @ patch_temp_dir h @ ''/patch.diff''))
          None t = (Exited rc out, t')"
    using assms(3) by simp
  then have w1: "fs ?w1 repo = Some t'"
    unfolding GIT_APPLY_CMDS_def by (rule apply_in_place_first [OF assms(2)])
  obtain res w2 where ex: "execute_script h (py_replace ''/testbed'' repo eval_script) bc repo
      (Some patch) 600 False ?w1 = (res, w2)"
    by (metis prod.exhaust)
  have "fs w2 repo = fs ?w1 repo"
    using execute_script_frame [OF assms(4), of "py_replace ''/testbed'' repo eval_script" bc repo
        "Some patch" 600 False ?w1] ex by simp
  then show ?thesis
    using assms(1) w1 ex
    by (simp add: run_swebench_test_local_def Let_def split: sum.splits option.splits)
qed

text \<open>
  C7. \<open>execute_script\<close> works on a temporary copy and leaves the tree at \<open>repo_location\<close>
  as it was (\<open>execute_script_keeps_original\<close>). \<open>run_swebench_test_local\<close> does not: given
  a non-empty patch it first runs \<open>git apply --verbose\<close> with \<open>cwd = problem.repo_location\<close>,
  on the original tree itself, before it calls \<open>execute_script\<close>, and whatever that command
  does to the tree stays (\<open>run_swebench_test_local_in_place\<close>). On a host where the command
  applies the patch, the original tree is patched after the run.
\<close>

theorem run_swebench_test_local_patches_original:
  "fs example_world ''/repo'' = Some [] \<and>
   fs (snd (run_swebench_test_local (example_host 0 False) ''pytest /testbed/tests''
              example_report ''abc'' ''/repo'' ''diff'' example_world)) ''/repo'' =
     Some [''patched''] \<and>
   hd (log (snd (run_swebench_test_local (example_host 0 False) ''pytest /testbed/tests''
              example_report ''abc'' ''/repo'' ''diff'' example_world))) =
     (''/repo'', Shell ''git apply --verbose /tmp/tmpb/patch.diff'', Exited 0 (Bytes []))"
  by code_simp

section \<open>Localization work items\<close>

text \<open>
  C10. When the token count of the file content exceeds \<open>max_file_tokens\<close>, \<open>run_work\<close>
  returns normally with the state it was given: no completion request has been issued and
  the store is unchanged, so the file gets no localization result from this work item.
\<close>

theorem run_work_over_budget:
  assumes "count_tokens env (file_content (work_file work)) > max_file_tokens (config work)"
  shows "run_work env work st = (None, st)"
  using assms by (simp add: run_work_def Let_def)

theorem run_work_over_budget_witness:
  "count_tokens example_collaborators (file_content (work_file (example_work 5)))
     > max_file_tokens (config (example_work 5)) \<and>
   run_work example_collaborators (example_work 5) empty_state = (None, empty_state) \<and>
   store empty_state ''a.py'' = None \<and> requests empty_state = []"
proof -
  have a: "count_tokens example_collaborators (file_content (work_file (example_work 5)))
     > max_file_tokens (config (example_work 5))"
    by code_simp
  from run_work_over_budget [OF a, of empty_state] a show ?thesis
    by (simp add: empty_state_def)
qed

end
